theory Spec2Isabelle
  imports Complex_Main "HOL-Library.Multiset"
begin

section \<open>Data model\<close>

text \<open>
  A data frame is the list of its rows; the row label of a book is its position, as
  with the default index that \<^verbatim>\<open>pd.read_csv\<close> gives. Floats are modelled as exact
  reals: rounding is left out. A string is a list of characters with code points below
  256.
\<close>

record row =
  title :: string
  author :: string
  avg_rating :: real
  rating_count :: int
  year_published :: int
  all_genres :: string
  cluster :: int

record book = row +
  features_text :: string
  genre_flag :: "string \<Rightarrow> int"

type_synonym dataframe = "book list"

type_synonym matrix = "real list list"

datatype py_error =
  ReError
  | IndexError
  | ZeroDivisionError
  | ValueError
  | KeyError
  | StopIteration
  | NotModelled

section \<open>Python and numpy primitives\<close>

definition py_div :: "real \<Rightarrow> real \<Rightarrow> py_error + real" where
  "py_div a b = (if b = 0 then Inl ZeroDivisionError else Inr (a / b))"

definition np_row :: "matrix \<Rightarrow> nat \<Rightarrow> py_error + real list" where
  "np_row m i = (if i < length m then Inr (m ! i) else Inl IndexError)"

definition np_scale :: "real \<Rightarrow> real list \<Rightarrow> real list" where
  "np_scale w v = map (\<lambda>x. w * x) v"

text \<open>Elementwise sum of two one-dimensional arrays, a one-element array being broadcast.\<close>

definition np_add :: "real list \<Rightarrow> real list \<Rightarrow> py_error + real list" where
  "np_add xs ys =
     (if length xs = length ys then Inr (map2 (+) xs ys)
      else if length xs = 1 then Inr (map (\<lambda>y. hd xs + y) ys)
      else if length ys = 1 then Inr (map (\<lambda>x. x + hd ys) xs)
      else Inl ValueError)"

text \<open>
  \<^verbatim>\<open>a += s\<close> for an array \<open>a\<close> and a pandas Series \<open>s\<close>: the sum is stored into \<open>a\<close>, whose
  shape is fixed, so the lengths have to agree.
\<close>

definition np_iadd_series :: "real list \<Rightarrow> real list \<Rightarrow> py_error + real list" where
  "np_iadd_series a s =
     (if length a = length s then Inr (map2 (+) a s) else Inl ValueError)"

definition same_cluster :: "dataframe \<Rightarrow> int \<Rightarrow> real list" where
  "same_cluster df c = map (\<lambda>b. if cluster b = c then 1 else 0) df"

text \<open>
  \<^verbatim>\<open>np.argsort\<close>: the positions in ascending order of their values, equal values in
  ascending position (numpy's default sort is an insertion sort on short arrays).
\<close>

definition np_argsort :: "real list \<Rightarrow> nat list" where
  "np_argsort v = sort_key (\<lambda>i. v ! i) [0..<length v]"

text \<open>\<^verbatim>\<open>xs[:n]\<close>: a negative bound counts from the end.\<close>

definition py_slice_to :: "'a list \<Rightarrow> int \<Rightarrow> 'a list" where
  "py_slice_to xs n =
     (if 0 \<le> n then take (nat n) xs else take (length xs - nat (- n)) xs)"

text \<open>
  \<^verbatim>\<open>sorted(xs, key=f, reverse=True)\<close>: a stable sort in descending order, equal keys
  keeping their order: the list is reversed, sorted and reversed again.
\<close>

definition py_sorted_reverse :: "('a \<Rightarrow> real) \<Rightarrow> 'a list \<Rightarrow> 'a list" where
  "py_sorted_reverse f xs = rev (sort_key f (rev xs))"

section \<open>Weights and the hybrid score\<close>

record weights =
  w_title :: real
  w_genre :: real
  w_rating :: real
  w_year :: real
  w_cluster :: real

definition w_sum :: "weights \<Rightarrow> real" where
  "w_sum w = w_title w + w_genre w + w_rating w + w_year w + w_cluster w"

text \<open>Sequencing of steps that may raise: the first exception ends the computation.\<close>

definition andthen :: "py_error + 'a \<Rightarrow> ('a \<Rightarrow> py_error + 'b) \<Rightarrow> py_error + 'b" where
  "andthen m f = (case m of Inl e \<Rightarrow> Inl e | Inr x \<Rightarrow> f x)"

text \<open>Step 3 of \<^verbatim>\<open>recommend\<close>: each weight is divided by the sum, in the source's order.\<close>

definition normalize_weights :: "weights \<Rightarrow> py_error + weights" where
  "normalize_weights w =
     andthen (py_div (w_title w) (w_sum w)) (\<lambda>t.
     andthen (py_div (w_genre w) (w_sum w)) (\<lambda>g.
     andthen (py_div (w_rating w) (w_sum w)) (\<lambda>r.
     andthen (py_div (w_year w) (w_sum w)) (\<lambda>y.
     andthen (py_div (w_cluster w) (w_sum w)) (\<lambda>c.
     Inr \<lparr>w_title = t, w_genre = g, w_rating = r, w_year = y, w_cluster = c\<rparr>)))))"

text \<open>
  The sum of the four weighted similarity rows, added left to right
  (\<^verbatim>\<open>w_title * sim_title_vec + ... + w_year * sim_year_vec\<close>).
\<close>

definition weighted_rows ::
  "weights \<Rightarrow> real list \<Rightarrow> real list \<Rightarrow> real list \<Rightarrow> real list \<Rightarrow> py_error + real list" where
  "weighted_rows w t g r y =
     andthen (np_add (np_scale (w_title w) t) (np_scale (w_genre w) g)) (\<lambda>s1.
     andthen (np_add s1 (np_scale (w_rating w) r)) (\<lambda>s2.
     np_add s2 (np_scale (w_year w) y)))"

text \<open>
  Steps 2 to 5 of \<^verbatim>\<open>recommend\<close> in book_rec_app.py, for the matched row \<open>idx\<close>: the
  four rows are read, the weights normalised, the rows combined and the cluster boost
  added in place.
\<close>

definition hybrid_score ::
  "dataframe \<Rightarrow> matrix \<Rightarrow> matrix \<Rightarrow> matrix \<Rightarrow> matrix \<Rightarrow> weights \<Rightarrow> nat
     \<Rightarrow> py_error + real list" where
  "hybrid_score df cosine_sim genre_sim rating_sim year_sim w idx =
     (let book_cluster = cluster (df ! idx) in
      andthen (np_row cosine_sim idx) (\<lambda>sim_title_vec.
      andthen (np_row genre_sim idx) (\<lambda>sim_genre_vec.
      andthen (np_row rating_sim idx) (\<lambda>sim_rating_vec.
      andthen (np_row year_sim idx) (\<lambda>sim_year_vec.
      andthen (normalize_weights w) (\<lambda>nw.
      andthen (weighted_rows nw sim_title_vec sim_genre_vec sim_rating_vec sim_year_vec) (\<lambda>hs.
      np_iadd_series hs (np_scale (w_cluster nw) (same_cluster df book_cluster)))))))))"

text \<open>
  The expression \<^verbatim>\<open>hybrid\<close> of the Streamlit script (section 12), for the selected row:
  the weights are already normalised there, and the cluster indicator is a plain array.
\<close>

definition hybrid ::
  "dataframe \<Rightarrow> matrix \<Rightarrow> matrix \<Rightarrow> matrix \<Rightarrow> matrix \<Rightarrow> weights \<Rightarrow> nat
     \<Rightarrow> py_error + real list" where
  "hybrid df cos_sim_title cos_sim_genre cos_sim_rating cos_sim_year nw selected_index =
     andthen (np_row cos_sim_title selected_index) (\<lambda>sim_title.
     andthen (np_row cos_sim_genre selected_index) (\<lambda>sim_genre.
     andthen (np_row cos_sim_rating selected_index) (\<lambda>sim_rating.
     andthen (np_row cos_sim_year selected_index) (\<lambda>sim_year.
     andthen (weighted_rows nw sim_title sim_genre sim_rating sim_year) (\<lambda>hs.
     np_add hs (np_scale (w_cluster nw)
                  (same_cluster df (cluster (df ! selected_index)))))))))"

section \<open>Strings\<close>

text \<open>
  \<^verbatim>\<open>str.lower\<close> and \<^verbatim>\<open>str.strip\<close> on code points below 256: the upper-case letters
  are A to Z and U+00C0 to U+00DE without the multiplication sign U+00D7; white space
  is U+0009 to U+000D, U+001C to U+0020, U+0085 and U+00A0.
\<close>

definition py_lower_char :: "char \<Rightarrow> char" where
  "py_lower_char c =
     (let k = (of_char c :: nat) in
      if (65 \<le> k \<and> k \<le> 90) \<or> (192 \<le> k \<and> k \<le> 222 \<and> k \<noteq> 215)
      then char_of (k + 32) else c)"

definition py_lower :: "string \<Rightarrow> string" where
  "py_lower s = map py_lower_char s"

definition py_isspace :: "char \<Rightarrow> bool" where
  "py_isspace c =
     (let k = (of_char c :: nat) in
      (9 \<le> k \<and> k \<le> 13) \<or> (28 \<le> k \<and> k \<le> 32) \<or> k = 133 \<or> k = 160)"

definition py_strip :: "string \<Rightarrow> string" where
  "py_strip s = rev (dropWhile py_isspace (rev (dropWhile py_isspace s)))"

section \<open>Regular expressions\<close>

text \<open>
  \<^verbatim>\<open>Series.str.contains(pat)\<close> has \<^verbatim>\<open>regex=True\<close> by default: the pattern is compiled
  with \<^verbatim>\<open>re.compile\<close> and an entry is kept when \<^verbatim>\<open>re.search\<close> finds a match in it.
  The model covers this part of the pattern syntax: literal characters, the dot,
  the postfix operators \<^verbatim>\<open>*\<close>, \<^verbatim>\<open>+\<close> and \<^verbatim>\<open>?\<close>, alternation, groups, and a backslash
  before a character that is no ASCII letter or digit. On any other construct
  (character sets, braces, anchors, escapes of letters and digits, group extensions,
  lazy and possessive operators) the model answers \<open>NotModelled\<close>.
\<close>

datatype regex =
  Never
  | Eps
  | Chr char
  | Dot
  | Seq regex regex
  | Alt regex regex
  | Star regex

fun nullable :: "regex \<Rightarrow> bool" where
  "nullable Never = False"
| "nullable Eps = True"
| "nullable (Chr c) = False"
| "nullable Dot = False"
| "nullable (Seq r s) = (nullable r \<and> nullable s)"
| "nullable (Alt r s) = (nullable r \<or> nullable s)"
| "nullable (Star r) = True"

text \<open>The expression for what may follow a first character \<open>a\<close>. The dot matches no newline.\<close>

fun deriv :: "char \<Rightarrow> regex \<Rightarrow> regex" where
  "deriv a Never = Never"
| "deriv a Eps = Never"
| "deriv a (Chr c) = (if a = c then Eps else Never)"
| "deriv a Dot = (if a = CHR 0x0A then Never else Eps)"
| "deriv a (Seq r s) =
     (if nullable r then Alt (Seq (deriv a r) s) (deriv a s) else Seq (deriv a r) s)"
| "deriv a (Alt r s) = Alt (deriv a r) (deriv a s)"
| "deriv a (Star r) = Seq (deriv a r) (Star r)"

text \<open>\<^verbatim>\<open>re.match\<close>: some prefix of the string matches.\<close>

fun re_match :: "regex \<Rightarrow> string \<Rightarrow> bool" where
  "re_match r [] = nullable r"
| "re_match r (c # cs) = (nullable r \<or> re_match (deriv c r) cs)"

text \<open>\<^verbatim>\<open>re.search\<close>: a match starts at some position of the string.\<close>

fun re_search :: "regex \<Rightarrow> string \<Rightarrow> bool" where
  "re_search r [] = nullable r"
| "re_search r (c # cs) = (re_match r (c # cs) \<or> re_search r cs)"

text \<open>
  The parser reads the pattern from left to right. A frame holds the finished
  branches of the group being read, the items of its current branch (both latest
  first), and whether the latest item ends in a postfix operator.
\<close>

type_synonym frame = "regex list \<times> regex list \<times> bool"

definition seq_of :: "regex list \<Rightarrow> regex" where
  "seq_of items = foldl (\<lambda>acc r. Seq r acc) Eps items"

definition close_frame :: "frame \<Rightarrow> regex" where
  "close_frame f =
     (case f of (alts, items, q) \<Rightarrow> foldl (\<lambda>acc r. Alt r acc) (seq_of items) alts)"

definition ascii_alnum :: "char \<Rightarrow> bool" where
  "ascii_alnum c =
     (let k = (of_char c :: nat) in
      (48 \<le> k \<and> k \<le> 57) \<or> (65 \<le> k \<and> k \<le> 90) \<or> (97 \<le> k \<and> k \<le> 122))"

definition repeat_of :: "char \<Rightarrow> regex \<Rightarrow> regex" where
  "repeat_of c r =
     (if c = CHR ''*'' then Star r
      else if c = CHR ''+'' then Seq r (Star r)
      else Alt r Eps)"

fun re_parse :: "frame \<Rightarrow> frame list \<Rightarrow> bool \<Rightarrow> string \<Rightarrow> py_error + regex" where
  "re_parse f stack escaped [] =
     (if escaped then Inl ReError
      else if stack \<noteq> [] then Inl ReError
      else Inr (close_frame f))"
| "re_parse (alts, items, q) stack escaped (c # cs) =
     (if escaped then
        (if ascii_alnum c then Inl NotModelled
         else re_parse (alts, Chr c # items, False) stack False cs)
      else if c = CHR 0x5C then re_parse (alts, items, q) stack True cs
      else if c = CHR ''('' then re_parse ([], [], False) ((alts, items, q) # stack) False cs
      else if c = CHR '')'' then
        (case stack of
           [] \<Rightarrow> Inl ReError
         | (alts', items', q') # stack' \<Rightarrow>
             re_parse (alts', close_frame (alts, items, q) # items', False) stack' False cs)
      else if c = CHR ''|'' then re_parse (seq_of items # alts, [], False) stack False cs
      else if c = CHR ''*'' \<or> c = CHR ''+'' \<or> c = CHR ''?'' then
        (case items of
           [] \<Rightarrow>
             (if c = CHR ''?'' \<and> alts = [] \<and> stack \<noteq> [] then Inl NotModelled
              else Inl ReError)
         | r # items' \<Rightarrow>
             (if q then (if c = CHR ''*'' then Inl ReError else Inl NotModelled)
              else re_parse (alts, repeat_of c r # items', True) stack False cs))
      else if c = CHR ''['' \<or> c = CHR ''{'' \<or> c = CHR ''^'' \<or> c = CHR ''$''
        then Inl NotModelled
      else if c = CHR ''.'' then re_parse (alts, Dot # items, False) stack False cs
      else re_parse (alts, Chr c # items, False) stack False cs)"

definition re_compile :: "string \<Rightarrow> py_error + regex" where
  "re_compile pat = re_parse ([], [], False) [] False pat"

text \<open>\<^verbatim>\<open>Series.str.contains\<close>: the pattern is compiled first, then searched in every entry.\<close>

definition str_contains :: "string list \<Rightarrow> string \<Rightarrow> py_error + bool list" where
  "str_contains col pat = andthen (re_compile pat) (\<lambda>r. Inr (map (re_search r) col))"

section \<open>The function recommend of book_rec_app.py\<close>

datatype rec_output =
  Message string
  | Frame "(nat \<times> row) list"

definition py_next :: "'a list \<Rightarrow> py_error + 'a" where
  "py_next xs = (case xs of [] \<Rightarrow> Inl StopIteration | x # _ \<Rightarrow> Inr x)"

text \<open>\<^verbatim>\<open>df.iloc[positions]\<close> with the seven columns of the result, each row under its label.\<close>

definition df_iloc :: "dataframe \<Rightarrow> nat list \<Rightarrow> py_error + (nat \<times> row) list" where
  "df_iloc df positions =
     (if list_all (\<lambda>i. i < length df) positions
      then Inr (map (\<lambda>i. (i, row.truncate (df ! i))) positions)
      else Inl IndexError)"

definition not_found_message :: "string \<Rightarrow> string" where
  "not_found_message query =
     ''No books found for '' @ [CHR 0x27] @ query @ [CHR 0x27] @ ''. Try another keyword.''"

text \<open>The rows of the frame that the mask keeps, by label.\<close>

definition masked :: "bool list \<Rightarrow> nat list" where
  "masked keep = filter (\<lambda>i. keep ! i) [0..<length keep]"

text \<open>Step 1 of \<^verbatim>\<open>recommend\<close>: the labels of the rows whose lower-cased title matches.\<close>

definition title_matches :: "string \<Rightarrow> dataframe \<Rightarrow> py_error + nat list" where
  "title_matches query df =
     (let q = py_strip (py_lower query) in
      andthen (str_contains (map (\<lambda>b. py_lower (title b)) df) q) (\<lambda>kept.
      Inr (masked kept)))"

text \<open>
  Step 6 of \<^verbatim>\<open>recommend\<close>: the positions by descending score
  (\<^verbatim>\<open>np.argsort(hybrid_score)[::-1]\<close>), without the input book, cut to the first \<open>n\<close>.
\<close>

definition top_indices :: "nat \<Rightarrow> real list \<Rightarrow> int \<Rightarrow> nat list" where
  "top_indices idx hs n =
     (let indices_sorted = rev (np_argsort hs);
          indices_sorted = filter (\<lambda>i. i \<noteq> idx) indices_sorted
      in py_slice_to indices_sorted n)"

definition recommend ::
  "string \<Rightarrow> dataframe \<Rightarrow> matrix \<Rightarrow> matrix \<Rightarrow> matrix \<Rightarrow> matrix \<Rightarrow> int \<Rightarrow> weights
     \<Rightarrow> py_error + rec_output" where
  "recommend query df cosine_sim genre_sim rating_sim year_sim n w =
     andthen (title_matches query df) (\<lambda>matches.
     if matches = [] then Inr (Message (not_found_message query))
     else
       let idx = hd matches in
       andthen (hybrid_score df cosine_sim genre_sim rating_sim year_sim w idx) (\<lambda>hs.
       andthen (df_iloc df (top_indices idx hs n)) (\<lambda>rows. Inr (Frame rows))))"

definition default_weights :: weights where
  "default_weights =
     \<lparr>w_title = 45 / 100, w_genre = 25 / 100, w_rating = 15 / 100,
      w_year = 10 / 100, w_cluster = 5 / 100\<rparr>"

section \<open>The Streamlit script\<close>

datatype search_mode = Title | Author | Genre | Keyword

datatype app_output =
  NoSelection
  | Recs nat "(nat \<times> real) list"

text \<open>Section 3 of the script: titles and authors are stripped.\<close>

definition clean :: "dataframe \<Rightarrow> dataframe" where
  "clean df = map (\<lambda>b. b\<lparr>title := py_strip (title b), author := py_strip (author b)\<rparr>) df"

text \<open>The lower-cased column that each search mode looks into (section 9).\<close>

definition search_column :: "search_mode \<Rightarrow> dataframe \<Rightarrow> string list" where
  "search_column m df =
     (case m of
        Title \<Rightarrow> map (\<lambda>b. py_lower (title b)) df
      | Author \<Rightarrow> map (\<lambda>b. py_lower (author b)) df
      | Genre \<Rightarrow> map (\<lambda>b. py_lower (all_genres b)) df
      | Keyword \<Rightarrow> map (\<lambda>b. py_lower (features_text b)) df)"

definition filtered_df :: "dataframe \<Rightarrow> search_mode \<Rightarrow> string \<Rightarrow> py_error + nat list" where
  "filtered_df df m query =
     (if query \<noteq> [] then
        (let q = py_strip (py_lower query) in
         andthen (str_contains (search_column m df) q) (\<lambda>kept. Inr (masked kept)))
      else Inr [0..<length df])"

text \<open>\<^verbatim>\<open>df.loc[idx]\<close>: a label that is no row of the frame raises KeyError.\<close>

definition df_loc :: "dataframe \<Rightarrow> nat \<Rightarrow> py_error + book" where
  "df_loc df idx = (if idx < length df then Inr (df ! idx) else Inl KeyError)"

text \<open>
  The loop that builds \<^verbatim>\<open>recs\<close> (section 12): the three \<^verbatim>\<open>continue\<close> tests in the
  source's order, then the append and the \<^verbatim>\<open>break\<close> once \<open>N\<close> entries are there.
\<close>

fun recs_loop ::
  "dataframe \<Rightarrow> nat \<Rightarrow> real \<Rightarrow> string list \<Rightarrow> nat \<Rightarrow> (nat \<times> real) list
     \<Rightarrow> (nat \<times> real) list \<Rightarrow> py_error + (nat \<times> real) list" where
  "recs_loop df selected_index min_rating genre_filter N recs [] = Inr recs"
| "recs_loop df selected_index min_rating genre_filter N recs ((idx, score) # rest) =
     (if idx = selected_index
      then recs_loop df selected_index min_rating genre_filter N recs rest
      else andthen (df_loc df idx) (\<lambda>b.
        if avg_rating b < min_rating
        then recs_loop df selected_index min_rating genre_filter N recs rest
        else if genre_filter \<noteq> [] \<and> \<not> list_ex (\<lambda>g. genre_flag b g = 1) genre_filter
        then recs_loop df selected_index min_rating genre_filter N recs rest
        else
          (let recs' = recs @ [(idx, score)] in
           if N \<le> length recs' then Inr recs'
           else recs_loop df selected_index min_rating genre_filter N recs' rest)))"

text \<open>\<^verbatim>\<open>sorted(list(enumerate(hybrid)), key=lambda x: x[1], reverse=True)\<close>\<close>

definition sim_scores :: "real list \<Rightarrow> (nat \<times> real) list" where
  "sim_scores h = py_sorted_reverse snd (zip [0..<length h] h)"

text \<open>The ranking and the loop together: the recommendations for a score vector.\<close>

definition recs_of ::
  "dataframe \<Rightarrow> nat \<Rightarrow> real \<Rightarrow> string list \<Rightarrow> nat \<Rightarrow> real list
     \<Rightarrow> py_error + (nat \<times> real) list" where
  "recs_of df selected_index min_rating genre_filter N h =
     recs_loop df selected_index min_rating genre_filter N [] (sim_scores h)"

text \<open>
  One run of the script. The similarity matrices, which the script computes from the
  frame with scikit-learn, are parameters; so are the values of the sidebar widgets
  and the label picked in the select box. A label is the pair of title and author
  (the script joins them with a dash that no title or author of the model contains).
\<close>

definition app ::
  "dataframe \<Rightarrow> matrix \<Rightarrow> matrix \<Rightarrow> matrix \<Rightarrow> matrix \<Rightarrow> search_mode \<Rightarrow> string \<Rightarrow> nat \<Rightarrow> real
     \<Rightarrow> string list \<Rightarrow> weights \<Rightarrow> string \<times> string \<Rightarrow> py_error + app_output" where
  "app df0 cos_sim_title cos_sim_genre cos_sim_rating cos_sim_year mode query N min_rating
       genre_filter w selected_label =
     (let df = clean df0 in
      andthen (normalize_weights w) (\<lambda>nw.
      andthen (filtered_df df mode query) (\<lambda>filtered.
      if query \<noteq> [] \<and> filtered \<noteq> [] then
        (let options = map (\<lambda>i. ((title (df ! i), author (df ! i)), i)) filtered in
         andthen (py_next (filter (\<lambda>(label, idx). label = selected_label) options))
           (\<lambda>(label, selected_index).
         andthen (df_loc df selected_index) (\<lambda>book.
         andthen (hybrid df cos_sim_title cos_sim_genre cos_sim_rating cos_sim_year nw
                    selected_index) (\<lambda>h.
         andthen (recs_of df selected_index min_rating genre_filter N h)
           (\<lambda>recs. Inr (Recs selected_index recs))))))
      else Inr NoSelection)))"

section \<open>recommend on a store of arrays\<close>

text \<open>
  numpy arrays are mutable and \<^verbatim>\<open>m[idx]\<close> is a view of the matrix, not a copy. Here the
  arrays live in a store, an array being named by its address; a matrix is the list of
  the addresses of its rows, so that a row read from it is an alias. Arithmetic
  allocates its result; \<^verbatim>\<open>+=\<close> writes into its left operand.
\<close>

type_synonym addr = nat

type_synonym heap = "real list list"

type_synonym 'a st = "heap \<Rightarrow> (py_error + 'a) \<times> heap"

definition st_return :: "'a \<Rightarrow> 'a st" where
  "st_return x h = (Inr x, h)"

definition st_raise :: "py_error \<Rightarrow> 'a st" where
  "st_raise e h = (Inl e, h)"

definition st_bind :: "'a st \<Rightarrow> ('a \<Rightarrow> 'b st) \<Rightarrow> 'b st" where
  "st_bind m f h = (case m h of (Inl e, h') \<Rightarrow> (Inl e, h') | (Inr x, h') \<Rightarrow> f x h')"

definition st_of :: "py_error + 'a \<Rightarrow> 'a st" where
  "st_of r h = (r, h)"

definition alloc :: "real list \<Rightarrow> addr st" where
  "alloc v h = (Inr (length h), h @ [v])"

definition view_row :: "addr list \<Rightarrow> nat \<Rightarrow> addr st" where
  "view_row m i = (if i < length m then st_return (m ! i) else st_raise IndexError)"

definition mul_scalar :: "real \<Rightarrow> addr \<Rightarrow> addr st" where
  "mul_scalar w a h = alloc (np_scale w (h ! a)) h"

definition add_arrays :: "addr \<Rightarrow> addr \<Rightarrow> addr st" where
  "add_arrays a b h = st_bind (st_of (np_add (h ! a) (h ! b))) alloc h"

definition iadd_series :: "addr \<Rightarrow> real list \<Rightarrow> unit st" where
  "iadd_series a s h =
     (case np_iadd_series (h ! a) s of
        Inl e \<Rightarrow> (Inl e, h)
      | Inr v \<Rightarrow> (Inr (), h[a := v]))"

definition read_array :: "addr \<Rightarrow> (real list) st" where
  "read_array a h = (Inr (h ! a), h)"

definition hybrid_score_heap ::
  "dataframe \<Rightarrow> addr list \<Rightarrow> addr list \<Rightarrow> addr list \<Rightarrow> addr list \<Rightarrow> weights \<Rightarrow> nat
     \<Rightarrow> addr st" where
  "hybrid_score_heap df cosine_sim genre_sim rating_sim year_sim w idx =
     (let book_cluster = cluster (df ! idx) in
      st_bind (view_row cosine_sim idx) (\<lambda>sim_title_vec.
      st_bind (view_row genre_sim idx) (\<lambda>sim_genre_vec.
      st_bind (view_row rating_sim idx) (\<lambda>sim_rating_vec.
      st_bind (view_row year_sim idx) (\<lambda>sim_year_vec.
      st_bind (st_of (normalize_weights w)) (\<lambda>nw.
      st_bind (mul_scalar (w_title nw) sim_title_vec) (\<lambda>t1.
      st_bind (mul_scalar (w_genre nw) sim_genre_vec) (\<lambda>t2.
      st_bind (add_arrays t1 t2) (\<lambda>s1.
      st_bind (mul_scalar (w_rating nw) sim_rating_vec) (\<lambda>t3.
      st_bind (add_arrays s1 t3) (\<lambda>s2.
      st_bind (mul_scalar (w_year nw) sim_year_vec) (\<lambda>t4.
      st_bind (add_arrays s2 t4) (\<lambda>hybrid_score.
      st_bind (iadd_series hybrid_score
                 (np_scale (w_cluster nw) (same_cluster df book_cluster))) (\<lambda>_.
      st_return hybrid_score))))))))))))))"

definition recommend_heap ::
  "string \<Rightarrow> dataframe \<Rightarrow> addr list \<Rightarrow> addr list \<Rightarrow> addr list \<Rightarrow> addr list \<Rightarrow> int \<Rightarrow> weights
     \<Rightarrow> rec_output st" where
  "recommend_heap query df cosine_sim genre_sim rating_sim year_sim n w =
     st_bind (st_of (title_matches query df)) (\<lambda>matches.
     if matches = [] then st_return (Message (not_found_message query))
     else
       let idx = hd matches in
       st_bind (hybrid_score_heap df cosine_sim genre_sim rating_sim year_sim w idx)
         (\<lambda>hybrid_score.
       st_bind (read_array hybrid_score) (\<lambda>hs.
       st_bind (st_of (df_iloc df (top_indices idx hs n))) (\<lambda>rows.
       st_return (Frame rows)))))"

text \<open>The matrix that a list of row addresses stands for in a store.\<close>

definition matrix_at :: "heap \<Rightarrow> addr list \<Rightarrow> matrix" where
  "matrix_at h m = map (\<lambda>a. h ! a) m"

section \<open>Notions used in the statements\<close>

text \<open>The composite score of one item as the specification writes it.\<close>

definition composite :: "weights \<Rightarrow> real \<Rightarrow> real \<Rightarrow> real \<Rightarrow> real \<Rightarrow> bool \<Rightarrow> real" where
  "composite w t g r y same =
     w_title w * t + w_genre w * g + w_rating w * r + w_year w * y
       + w_cluster w * (if same then 1 else 0)"

text \<open>The weights divided by their sum.\<close>

definition normalized :: "weights \<Rightarrow> weights" where
  "normalized w =
     \<lparr>w_title = w_title w / w_sum w, w_genre = w_genre w / w_sum w,
      w_rating = w_rating w / w_sum w, w_year = w_year w / w_sum w,
      w_cluster = w_cluster w / w_sum w\<rparr>"

text \<open>Row \<open>a\<close> of the matrix exists and has one entry per item.\<close>

definition row_ok :: "nat \<Rightarrow> matrix \<Rightarrow> nat \<Rightarrow> bool" where
  "row_ok n m a \<longleftrightarrow> a < length m \<and> length (m ! a) = n"

text \<open>The item passes the rating filter and the genre filter.\<close>

definition passes :: "dataframe \<Rightarrow> real \<Rightarrow> string list \<Rightarrow> nat \<Rightarrow> bool" where
  "passes df min_rating genre_filter i \<longleftrightarrow>
     min_rating \<le> avg_rating (df ! i) \<and>
     (genre_filter = [] \<or> list_ex (\<lambda>g. genre_flag (df ! i) g = 1) genre_filter)"

text \<open>The language of a regular expression.\<close>

definition conc :: "string set \<Rightarrow> string set \<Rightarrow> string set" where
  "conc A B = {u @ v | u v. u \<in> A \<and> v \<in> B}"

inductive_set star :: "string set \<Rightarrow> string set" for A :: "string set" where
  star_empty: "[] \<in> star A"
| star_step: "u \<in> A \<Longrightarrow> v \<in> star A \<Longrightarrow> u @ v \<in> star A"

fun lang :: "regex \<Rightarrow> string set" where
  "lang Never = {}"
| "lang Eps = {[]}"
| "lang (Chr c) = {[c]}"
| "lang Dot = {[c] | c. c \<noteq> CHR 0x0A}"
| "lang (Seq r s) = conc (lang r) (lang s)"
| "lang (Alt r s) = lang r \<union> lang s"
| "lang (Star r) = star (lang r)"

text \<open>The characters that the pattern syntax of the model treats specially.\<close>

definition special :: "char \<Rightarrow> bool" where
  "special c \<longleftrightarrow> c \<in> set [CHR 0x5C, CHR ''('', CHR '')'', CHR ''|'', CHR ''*'', CHR ''+'',
     CHR ''?'', CHR ''['', CHR ''{'', CHR ''^'', CHR ''$'', CHR ''.'']"

text \<open>\<open>p\<close> occurs in \<open>s\<close> as a contiguous substring (Python's \<^verbatim>\<open>p in s\<close>).\<close>

fun starts_with :: "string \<Rightarrow> string \<Rightarrow> bool" where
  "starts_with [] s = True"
| "starts_with (a # p) [] = False"
| "starts_with (a # p) (c # s) = (a = c \<and> starts_with p s)"

fun substring :: "string \<Rightarrow> string \<Rightarrow> bool" where
  "substring p [] = (p = [])"
| "substring p (c # s) = (starts_with p (c # s) \<or> substring p s)"

text \<open>No lower-cased title of the frame contains \<open>q\<close>.\<close>

definition no_title_contains :: "string \<Rightarrow> dataframe \<Rightarrow> bool" where
  "no_title_contains q df = list_all (\<lambda>b. \<not> substring q (py_lower (title b))) df"

text \<open>The pattern has no special character.\<close>

definition plain :: "string \<Rightarrow> bool" where
  "plain q = list_all (\<lambda>c. \<not> special c) q"

text \<open>The score vector as the specification writes it, for normalised weights \<open>nw\<close>.\<close>

definition scores ::
  "dataframe \<Rightarrow> matrix \<Rightarrow> matrix \<Rightarrow> matrix \<Rightarrow> matrix \<Rightarrow> weights \<Rightarrow> nat \<Rightarrow> real list" where
  "scores df T G R Y nw a =
     map (\<lambda>i. composite nw (T ! a ! i) (G ! a ! i) (R ! a ! i) (Y ! a ! i)
                (cluster (df ! i) = cluster (df ! a))) [0..<length df]"

text \<open>The item is not the anchor and passes both filters.\<close>

definition keeps :: "dataframe \<Rightarrow> nat \<Rightarrow> real \<Rightarrow> string list \<Rightarrow> nat \<Rightarrow> bool" where
  "keeps df sel min_rating genre_filter i \<longleftrightarrow> i \<noteq> sel \<and> passes df min_rating genre_filter i"

text \<open>What \<^verbatim>\<open>re.compile\<close> makes of the pattern \<^verbatim>\<open>d.ne\<close>.\<close>

definition dne_pattern :: regex where
  "dne_pattern = Seq (Chr CHR ''d'') (Seq Dot (Seq (Chr CHR ''n'') (Seq (Chr CHR ''e'') Eps)))"

text \<open>Every row address of the matrix names an array of the store.\<close>

definition valid_rows :: "heap \<Rightarrow> addr list \<Rightarrow> bool" where
  "valid_rows h m = list_all (\<lambda>a. a < length h) m"

section \<open>A small data set\<close>

text \<open>
  Five books with the similarity rows of the specification's example for the first
  of them: title row 1.0, 0.8, 0.3, 0.3, 0.1 and genre row 1.0, 0.2, 0.9, 0.1, 0.1.
\<close>

definition toy_book :: "string \<Rightarrow> string \<Rightarrow> real \<Rightarrow> int \<Rightarrow> string list \<Rightarrow> book" where
  "toy_book t a r c gs =
     \<lparr>title = t, author = a, avg_rating = r, rating_count = 100, year_published = 2000,
      all_genres = concat gs, cluster = c, features_text = t,
      genre_flag = (\<lambda>g. if g \<in> set gs then 1 else 0)\<rparr>"

definition toy_df :: dataframe where
  "toy_df =
     [toy_book ''Dune'' ''Herbert'' (42 / 10) 0 [''fiction''],
      toy_book ''Dune Messiah'' ''Herbert'' (39 / 10) 0 [''fiction''],
      toy_book ''Emma'' ''Austen'' 4 1 [''fiction'', ''romance''],
      toy_book ''Hamlet'' ''Shakespeare'' (41 / 10) 1 [''poetry''],
      toy_book ''Cosmos'' ''Sagan'' (44 / 10) 2 [''science'']]"

definition toy_title :: matrix where
  "toy_title =
     [[1, 8 / 10, 3 / 10, 3 / 10, 1 / 10],
      [8 / 10, 1, 0, 0, 0],
      [3 / 10, 0, 1, 0, 0],
      [3 / 10, 0, 0, 1, 0],
      [1 / 10, 0, 0, 0, 1]]"

definition toy_genre :: matrix where
  "toy_genre =
     [[1, 2 / 10, 9 / 10, 1 / 10, 1 / 10],
      [2 / 10, 1, 0, 0, 0],
      [9 / 10, 0, 1, 0, 0],
      [1 / 10, 0, 0, 1, 0],
      [1 / 10, 0, 0, 0, 1]]"

definition toy_ones :: matrix where
  "toy_ones = replicate 5 (replicate 5 1)"

definition toy_weights :: weights where
  "toy_weights = \<lparr>w_title = 1 / 2, w_genre = 1 / 2, w_rating = 0, w_year = 0, w_cluster = 0\<rparr>"

definition title_only :: weights where
  "title_only = \<lparr>w_title = 1, w_genre = 0, w_rating = 0, w_year = 0, w_cluster = 0\<rparr>"

definition zero_weights :: weights where
  "zero_weights = \<lparr>w_title = 0, w_genre = 0, w_rating = 0, w_year = 0, w_cluster = 0\<rparr>"

text \<open>
  A store that holds the title matrix at the addresses 0 to 4, the genre matrix at 5 to
  9 and a matrix of ones at 10 to 14.
\<close>

definition toy_heap :: heap where
  "toy_heap = toy_title @ toy_genre @ toy_ones"

definition title_at :: "addr list" where
  "title_at = [0, 1, 2, 3, 4]"

definition genre_at :: "addr list" where
  "genre_at = [5, 6, 7, 8, 9]"

definition ones_at :: "addr list" where
  "ones_at = [10, 11, 12, 13, 14]"

section \<open>Basic facts\<close>

lemma andthen_simps [simp]: "andthen (Inl e) f = Inl e" "andthen (Inr x) f = f x"
  by (simp_all add: andthen_def)

lemma normalize_weights_ok: "w_sum w \<noteq> 0 \<Longrightarrow> normalize_weights w = Inr (normalized w)"
  by (simp add: normalize_weights_def py_div_def normalized_def)

lemma normalize_weights_zero: "w_sum w = 0 \<Longrightarrow> normalize_weights w = Inl ZeroDivisionError"
  by (simp add: normalize_weights_def py_div_def)

lemma weighted_rows_ok:
  assumes "length t = n" "length g = n" "length r = n" "length y = n"
  shows "weighted_rows w t g r y =
    Inr (map (\<lambda>i. w_title w * t ! i + w_genre w * g ! i + w_rating w * r ! i
                  + w_year w * y ! i) [0..<n])"
  using assms
  by (auto simp add: weighted_rows_def np_add_def np_scale_def intro!: nth_equalityI)

lemma hybrid_score_ok:
  assumes "row_ok (length df) T a" "row_ok (length df) G a" "row_ok (length df) R a"
    "row_ok (length df) Y a" and "w_sum w \<noteq> 0"
  shows "hybrid_score df T G R Y w a =
    Inr (map (\<lambda>i. composite (normalized w) (T ! a ! i) (G ! a ! i) (R ! a ! i) (Y ! a ! i)
                  (cluster (df ! i) = cluster (df ! a))) [0..<length df])"
  using assms
  by (auto simp add: hybrid_score_def row_ok_def np_row_def normalize_weights_ok
      weighted_rows_ok [where n="length df"] np_iadd_series_def np_scale_def same_cluster_def
      composite_def intro!: nth_equalityI)

lemma hybrid_ok:
  assumes "row_ok (length df) T a" "row_ok (length df) G a" "row_ok (length df) R a"
    "row_ok (length df) Y a"
  shows "hybrid df T G R Y nw a =
    Inr (map (\<lambda>i. composite nw (T ! a ! i) (G ! a ! i) (R ! a ! i) (Y ! a ! i)
                  (cluster (df ! i) = cluster (df ! a))) [0..<length df])"
  using assms
  by (auto simp add: hybrid_def row_ok_def np_row_def
      weighted_rows_ok [where n="length df"] np_add_def np_scale_def same_cluster_def
      composite_def intro!: nth_equalityI)

lemma toy_len: "length toy_df = 5"
  by (simp add: toy_df_def)

lemma toy_rows: "row_ok 5 toy_title 0" "row_ok 5 toy_genre 0" "row_ok 5 toy_ones 0"
  by (simp_all add: row_ok_def toy_title_def toy_genre_def toy_ones_def)

lemma toy_wsum: "w_sum toy_weights = 1"
  by (simp add: w_sum_def toy_weights_def)

lemma upt5: "[0..<5] = [0, 1, 2, 3, 4::nat]"
  by (simp add: upt_rec)

section \<open>The composite score\<close>

text \<open>
  C1. For a valid anchor \<open>a\<close>, matrices with a row \<open>a\<close> of one entry per item, and
  weights whose sum is not zero, the score vector that \<^verbatim>\<open>recommend\<close> computes and the
  vector \<^verbatim>\<open>hybrid\<close> of the Streamlit script both hold, for every item \<open>i\<close>,
  \<open>w_title * title[a][i] + w_genre * genre[a][i] + w_rating * rating[a][i] +
  w_year * year[a][i] + w_cluster * (1 if cluster(i) = cluster(a) else 0)\<close>
  with the weights divided by their sum: the cluster term is the whole normalised
  cluster weight for an item of the anchor's cluster and zero for any other.
\<close>

theorem composite_score_formula:
  assumes "a < length df"
    and "row_ok (length df) T a" "row_ok (length df) G a"
    and "row_ok (length df) R a" "row_ok (length df) Y a"
    and "w_sum w \<noteq> 0"
  shows "hybrid_score df T G R Y w a =
           Inr (map (\<lambda>i. composite (normalized w) (T ! a ! i) (G ! a ! i) (R ! a ! i)
                         (Y ! a ! i) (cluster (df ! i) = cluster (df ! a))) [0..<length df])
       \<and> normalize_weights w = Inr (normalized w)
       \<and> hybrid df T G R Y (normalized w) a =
           Inr (map (\<lambda>i. composite (normalized w) (T ! a ! i) (G ! a ! i) (R ! a ! i)
                         (Y ! a ! i) (cluster (df ! i) = cluster (df ! a))) [0..<length df])"
  using assms by (simp add: hybrid_score_ok hybrid_ok normalize_weights_ok)

theorem composite_score_formula_witness:
  "0 < length toy_df \<and> row_ok (length toy_df) toy_title 0 \<and> row_ok (length toy_df) toy_genre 0
   \<and> row_ok (length toy_df) toy_ones 0 \<and> w_sum toy_weights \<noteq> 0
   \<and> hybrid_score toy_df toy_title toy_genre toy_ones toy_ones toy_weights 0
       = Inr [1, 1 / 2, 6 / 10, 2 / 10, 1 / 10]
   \<and> hybrid toy_df toy_title toy_genre toy_ones toy_ones (normalized toy_weights) 0
       = Inr [1, 1 / 2, 6 / 10, 2 / 10, 1 / 10]"
proof -
  have h: "0 < length toy_df" "row_ok (length toy_df) toy_title 0"
    "row_ok (length toy_df) toy_genre 0" "row_ok (length toy_df) toy_ones 0"
    "w_sum toy_weights \<noteq> 0"
    by (simp_all add: toy_len toy_rows toy_wsum)
  have n: "normalized toy_weights = toy_weights"
    by (simp add: normalized_def toy_wsum)
  have vals: "map (\<lambda>i. composite toy_weights (toy_title ! 0 ! i) (toy_genre ! 0 ! i)
        (toy_ones ! 0 ! i) (toy_ones ! 0 ! i) (cluster (toy_df ! i) = cluster (toy_df ! 0)))
      [0, 1, 2, 3, 4] = [1, 1 / 2, 6 / 10, 2 / 10, 1 / 10]"
    by (simp add: composite_def toy_weights_def toy_title_def toy_genre_def toy_ones_def)
  note f = composite_score_formula [OF h(1) h(2) h(3) h(4) h(4) h(5)]
  from f h show ?thesis
    unfolding n toy_len upt5 vals by simp
qed

section \<open>The anchor's own score\<close>

lemma composite_le:
  assumes "0 \<le> w_title nw" "0 \<le> w_genre nw" "0 \<le> w_rating nw" "0 \<le> w_year nw"
    "0 \<le> w_cluster nw"
    and "t \<le> 1" "g \<le> 1" "r \<le> 1" "y \<le> 1"
  shows "composite nw t g r y same
           \<le> w_title nw + w_genre nw + w_rating nw + w_year nw + w_cluster nw"
proof -
  have "w_title nw * t \<le> w_title nw" "w_genre nw * g \<le> w_genre nw"
    "w_rating nw * r \<le> w_rating nw" "w_year nw * y \<le> w_year nw"
    "w_cluster nw * (if same then 1 else 0) \<le> w_cluster nw"
    using assms by (simp_all add: mult_left_le)
  then show ?thesis by (simp add: composite_def)
qed

lemma normalized_sum: "w_sum w \<noteq> 0 \<Longrightarrow> w_sum (normalized w) = 1"
  by (simp add: w_sum_def normalized_def add_divide_distrib [symmetric])

lemma normalized_nonneg:
  assumes "0 < w_sum w" "0 \<le> w_title w" "0 \<le> w_genre w" "0 \<le> w_rating w" "0 \<le> w_year w"
    "0 \<le> w_cluster w"
  shows "0 \<le> w_title (normalized w)" "0 \<le> w_genre (normalized w)"
    "0 \<le> w_rating (normalized w)" "0 \<le> w_year (normalized w)" "0 \<le> w_cluster (normalized w)"
  using assms by (simp_all add: normalized_def)

text \<open>
  C8. When the anchor's diagonal entry is 1 in each of the four matrices and the
  weights are non-negative with a positive sum, the anchor's own score, before the
  anchor is removed from the ranking, is the sum of the five normalised weights, which
  is exactly 1 (in exact arithmetic); and no item whose four similarity entries are at
  most 1 scores higher.
\<close>

theorem anchor_scores_one:
  assumes "a < length df"
    and "row_ok (length df) T a" "row_ok (length df) G a"
    and "row_ok (length df) R a" "row_ok (length df) Y a"
    and "T ! a ! a = 1" "G ! a ! a = 1" "R ! a ! a = 1" "Y ! a ! a = 1"
    and "0 \<le> w_title w" "0 \<le> w_genre w" "0 \<le> w_rating w" "0 \<le> w_year w" "0 \<le> w_cluster w"
    and "0 < w_sum w"
  shows "\<exists>hs. hybrid_score df T G R Y w a = Inr hs
           \<and> hybrid df T G R Y (normalized w) a = Inr hs
           \<and> length hs = length df
           \<and> hs ! a = w_title (normalized w) + w_genre (normalized w) + w_rating (normalized w)
                       + w_year (normalized w) + w_cluster (normalized w)
           \<and> hs ! a = 1
           \<and> (\<forall>i. i < length df \<and> T ! a ! i \<le> 1 \<and> G ! a ! i \<le> 1 \<and> R ! a ! i \<le> 1
                   \<and> Y ! a ! i \<le> 1 \<longrightarrow> hs ! i \<le> hs ! a)"
proof -
  let ?nw = "normalized w"
  let ?hs = "scores df T G R Y ?nw a"
  have ne: "w_sum w \<noteq> 0" using assms(15) by simp
  have s1: "hybrid_score df T G R Y w a = Inr ?hs"
    unfolding scores_def using assms(2-5) ne by (rule hybrid_score_ok)
  have s2: "hybrid df T G R Y ?nw a = Inr ?hs"
    unfolding scores_def using assms(2-5) by (rule hybrid_ok)
  have nth: "?hs ! i = composite ?nw (T ! a ! i) (G ! a ! i) (R ! a ! i) (Y ! a ! i)
                  (cluster (df ! i) = cluster (df ! a))" if "i < length df" for i
    using that by (simp add: scores_def)
  have sum1: "w_title ?nw + w_genre ?nw + w_rating ?nw + w_year ?nw + w_cluster ?nw = 1"
    using normalized_sum [OF ne] by (simp add: w_sum_def)
  have anchor: "?hs ! a = w_title ?nw + w_genre ?nw + w_rating ?nw + w_year ?nw + w_cluster ?nw"
    using assms(1,6-9) by (simp add: nth composite_def)
  have bound: "?hs ! i \<le> ?hs ! a"
    if "i < length df" "T ! a ! i \<le> 1" "G ! a ! i \<le> 1" "R ! a ! i \<le> 1" "Y ! a ! i \<le> 1" for i
    unfolding anchor nth [OF that(1)]
    by (rule composite_le [OF normalized_nonneg [OF assms(15) assms(10-14)] that(2-5)])
  have len: "length ?hs = length df" by (simp add: scores_def)
  show ?thesis
    using s1 s2 len anchor sum1 bound by auto
qed

theorem anchor_scores_one_witness:
  "0 < length toy_df \<and> row_ok (length toy_df) toy_title 0 \<and> row_ok (length toy_df) toy_genre 0
   \<and> row_ok (length toy_df) toy_ones 0
   \<and> toy_title ! 0 ! 0 = 1 \<and> toy_genre ! 0 ! 0 = 1 \<and> toy_ones ! 0 ! 0 = 1
   \<and> 0 \<le> w_title toy_weights \<and> 0 \<le> w_genre toy_weights \<and> 0 \<le> w_rating toy_weights
   \<and> 0 \<le> w_year toy_weights \<and> 0 \<le> w_cluster toy_weights \<and> 0 < w_sum toy_weights
   \<and> (\<exists>hs. hybrid_score toy_df toy_title toy_genre toy_ones toy_ones toy_weights 0 = Inr hs
         \<and> hs ! 0 = 1 \<and> hs ! 2 \<le> hs ! 0)"
proof -
  have h: "0 < length toy_df" "row_ok (length toy_df) toy_title 0"
    "row_ok (length toy_df) toy_genre 0" "row_ok (length toy_df) toy_ones 0"
    by (simp_all add: toy_len toy_rows)
  have d: "toy_title ! 0 ! 0 = 1" "toy_genre ! 0 ! 0 = 1" "toy_ones ! 0 ! 0 = 1"
    by (simp_all add: toy_title_def toy_genre_def toy_ones_def)
  have w: "0 \<le> w_title toy_weights" "0 \<le> w_genre toy_weights" "0 \<le> w_rating toy_weights"
    "0 \<le> w_year toy_weights" "0 \<le> w_cluster toy_weights" "0 < w_sum toy_weights"
    by (simp_all add: toy_weights_def w_sum_def)
  have e: "toy_title ! 0 ! 2 \<le> 1" "toy_genre ! 0 ! 2 \<le> 1" "toy_ones ! 0 ! 2 \<le> 1"
    by (simp_all add: toy_title_def toy_genre_def toy_ones_def)
  from anchor_scores_one [OF h(1) h(2) h(3) h(4) h(4) d(1) d(2) d(3) d(3) w]
  obtain hs where hs: "hybrid_score toy_df toy_title toy_genre toy_ones toy_ones toy_weights 0
      = Inr hs" "hs ! 0 = 1"
    "\<forall>i. i < length toy_df \<and> toy_title ! 0 ! i \<le> 1 \<and> toy_genre ! 0 ! i \<le> 1
        \<and> toy_ones ! 0 ! i \<le> 1 \<and> toy_ones ! 0 ! i \<le> 1 \<longrightarrow> hs ! i \<le> hs ! 0"
    by blast
  from hs(3) e have "hs ! 2 \<le> hs ! 0" by (simp add: toy_len)
  with hs(1,2) h d w show ?thesis by blast
qed

section \<open>Weights that sum to zero\<close>

lemma zero_weights_sum: "w_sum zero_weights = 0"
  by (simp add: w_sum_def zero_weights_def)

lemma toy_dune_matches: "title_matches ''Dune'' toy_df = Inr [0, 1]"
  by code_simp

text \<open>
  C7. When the five weights sum to zero, as they do when all five are zero, the request
  fails: the division by the sum raises ZeroDivisionError (the script has no error class
  of its own), and no ranking is produced. The Streamlit script fails so on every run;
  \<^verbatim>\<open>recommend\<close> normalises after the anchor is found and its four rows are read, so it
  fails so whenever the query matches a title whose row exists in the four matrices.
\<close>

theorem zero_weights_fail:
  assumes "w_sum w = 0"
  shows "app df T G R Y mode query N min_rating genre_filter w selected_label
           = Inl ZeroDivisionError
       \<and> (title_matches query' df' = Inr (idx # rest) \<and> idx < length T' \<and> idx < length G'
            \<and> idx < length R' \<and> idx < length Y'
          \<longrightarrow> recommend query' df' T' G' R' Y' n w = Inl ZeroDivisionError)"
  using assms
  by (simp add: recommend_def hybrid_score_def np_row_def normalize_weights_zero app_def)

theorem zero_weights_fail_witness:
  "w_sum zero_weights = 0 \<and> title_matches ''Dune'' toy_df = Inr [0, 1]
   \<and> 0 < length toy_title \<and> 0 < length toy_genre \<and> 0 < length toy_ones
   \<and> recommend ''Dune'' toy_df toy_title toy_genre toy_ones toy_ones 10 zero_weights
       = Inl ZeroDivisionError
   \<and> app toy_df toy_title toy_genre toy_ones toy_ones Title ''Dune'' 10 0 [] zero_weights
         (''Dune'', ''Herbert'') = Inl ZeroDivisionError"
proof -
  have l: "0 < length toy_title" "0 < length toy_genre" "0 < length toy_ones"
    by (simp_all add: toy_title_def toy_genre_def toy_ones_def)
  from zero_weights_fail [OF zero_weights_sum, of toy_df toy_title toy_genre toy_ones toy_ones
      Title "''Dune''" 10 0 "[]" "(''Dune'', ''Herbert'')" "''Dune''" toy_df 0 "[1]"
      toy_title toy_genre toy_ones toy_ones 10]
    zero_weights_sum toy_dune_matches l
  show ?thesis by simp
qed

section \<open>Ranking and the filters\<close>

lemma recs_loop_sound:
  "recs_loop df sel mr gf N recs ranked = Inr out \<Longrightarrow> x \<in> set out \<Longrightarrow>
     x \<in> set recs \<or> (x \<in> set ranked \<and> fst x \<noteq> sel \<and> fst x < length df \<and> passes df mr gf (fst x))"
proof (induction ranked arbitrary: recs)
  case Nil
  then show ?case by simp
next
  case (Cons p ranked)
  obtain idx score where p: "p = (idx, score)" by (cases p)
  show ?case
  proof (cases "idx = sel")
    case True
    with Cons.prems p have "recs_loop df sel mr gf N recs ranked = Inr out" by simp
    from Cons.IH [OF this Cons.prems(2)] show ?thesis by auto
  next
    case False
    show ?thesis
    proof (cases "idx < length df")
      case oob: False
      with Cons.prems p False show ?thesis by (simp add: df_loc_def)
    next
      case inb: True
      show ?thesis
      proof (cases "passes df mr gf idx")
        case no: False
        with Cons.prems p False inb have "recs_loop df sel mr gf N recs ranked = Inr out"
          by (auto simp add: df_loc_def passes_def split: if_splits)
        from Cons.IH [OF this Cons.prems(2)] show ?thesis by auto
      next
        case yes: True
        show ?thesis
        proof (cases "N \<le> Suc (length recs)")
          case True
          with Cons.prems p False inb yes have "out = recs @ [(idx, score)]"
            by (auto simp add: df_loc_def passes_def Let_def split: if_splits)
          with Cons.prems(2) p False inb yes show ?thesis by auto
        next
          case more: False
          with Cons.prems p False inb yes
          have "recs_loop df sel mr gf N (recs @ [(idx, score)]) ranked = Inr out"
            by (auto simp add: df_loc_def passes_def Let_def split: if_splits)
          from Cons.IH [OF this Cons.prems(2)] p False inb yes show ?thesis by auto
        qed
      qed
    qed
  qed
qed

lemma recs_loop_take:
  assumes "\<forall>x \<in> set ranked. fst x < length df" and "length recs < N"
  shows "recs_loop df sel mr gf N recs ranked =
           Inr (recs @ take (N - length recs) (filter (\<lambda>x. keeps df sel mr gf (fst x)) ranked))"
  using assms
proof (induction ranked arbitrary: recs)
  case Nil
  then show ?case by simp
next
  case (Cons p ranked)
  obtain idx score where p: "p = (idx, score)" by (cases p)
  from Cons.prems have inb: "idx < length df" and rest: "\<forall>x \<in> set ranked. fst x < length df"
    by (simp_all add: p)
  note IH = Cons.IH [OF rest]
  show ?case
  proof (cases "keeps df sel mr gf idx")
    case False
    then have "recs_loop df sel mr gf N recs (p # ranked) = recs_loop df sel mr gf N recs ranked"
      using inb by (auto simp add: p df_loc_def keeps_def passes_def)
    with False IH [OF Cons.prems(2)] show ?thesis by (simp add: p)
  next
    case True
    then have k: "idx \<noteq> sel" "\<not> avg_rating (df ! idx) < mr"
      "\<not> (gf \<noteq> [] \<and> \<not> list_ex (\<lambda>g. genre_flag (df ! idx) g = 1) gf)"
      by (auto simp add: keeps_def passes_def)
    show ?thesis
    proof (cases "N \<le> Suc (length recs)")
      case full: True
      with Cons.prems(2) have "N - length recs = Suc 0" by simp
      with True full k inb show ?thesis by (auto simp add: p df_loc_def Let_def)
    next
      case more: False
      then have lt: "length (recs @ [(idx, score)]) < N" by simp
      have "N - length recs = Suc (N - length (recs @ [(idx, score)]))" using more by simp
      with True more k inb IH [OF lt] show ?thesis by (auto simp add: p df_loc_def Let_def)
    qed
  qed
qed

lemma length_filter_mset_cong:
  "mset xs = mset ys \<Longrightarrow> length (filter P xs) = length (filter P ys)"
  by (metis mset_filter size_mset)

lemma mset_sim_scores: "mset (sim_scores h) = mset (zip [0..<length h] h)"
  by (simp add: sim_scores_def py_sorted_reverse_def)

lemma set_sim_scores: "set (sim_scores h) = set (zip [0..<length h] h)"
  using mset_sim_scores by (metis set_mset_mset)

lemma sim_scores_in_range: "x \<in> set (sim_scores h) \<Longrightarrow> fst x < length h"
  by (cases x) (auto simp add: set_sim_scores dest: set_zip_leftD)

lemma map_fst_filter: "map fst (filter (\<lambda>x. P (fst x)) zs) = filter P (map fst zs)"
  by (induction zs) simp_all

lemma length_filter_fst_zip:
  "length (filter (\<lambda>x. P (fst x)) (zip [0..<length h] h)) = length (filter P [0..<length h])"
proof -
  have "map fst (filter (\<lambda>x. P (fst x)) (zip [0..<length h] h))
          = filter P (map fst (zip [0..<length h] h))"
    by (rule map_fst_filter)
  then have "map fst (filter (\<lambda>x. P (fst x)) (zip [0..<length h] h)) = filter P [0..<length h]"
    by simp
  then show ?thesis by (metis length_map)
qed

lemma count_sim_scores:
  "length (filter (\<lambda>x. P (fst x)) (sim_scores h)) = length (filter P [0..<length h])"
  using length_filter_mset_cong [OF mset_sim_scores] length_filter_fst_zip by metis

lemma mset_np_argsort: "mset (np_argsort hs) = mset [0..<length hs]"
  by (simp add: np_argsort_def)

lemma length_filter_neq_upt: "idx < n \<Longrightarrow> length (filter (\<lambda>i. i \<noteq> idx) [0..<n]) = n - 1"
proof (induction n)
  case 0
  then show ?case by simp
next
  case (Suc n)
  show ?case
  proof (cases "idx = n")
    case True
    then have "filter (\<lambda>i. i \<noteq> idx) [0..<n] = [0..<n]" by (auto intro: filter_True)
    with True show ?thesis by simp
  next
    case False
    with Suc have "length (filter (\<lambda>i. i \<noteq> idx) [0..<n]) = n - 1" "0 < n" by auto
    with False show ?thesis by simp
  qed
qed

lemma length_ranked_others:
  assumes "idx < length hs"
  shows "length (filter (\<lambda>i. i \<noteq> idx) (rev (np_argsort hs))) = length hs - 1"
proof -
  have "mset (rev (np_argsort hs)) = mset [0..<length hs]" by (simp add: mset_np_argsort)
  from length_filter_mset_cong [OF this] length_filter_neq_upt [OF assms] show ?thesis by metis
qed

lemma toy_recs: "recs_of toy_df 0 (39 / 10) [''fiction'', ''poetry''] 3 [1, 1 / 2, 6 / 10, 2 / 10, 1 / 10]
  = Inr [(2, 6 / 10), (1, 1 / 2), (3, 2 / 10)]"
  by code_simp

lemma toy_count: "length (filter (keeps toy_df 0 (39 / 10) [''fiction'', ''poetry'']) [0..<length toy_df]) = 3"
  by code_simp

lemma toy_top: "top_indices 0 [1, 1 / 2, 6 / 10, 2 / 10, 1 / 10] 3 = [2, 1, 3]"
  by code_simp

text \<open>
  C4. For a request of \<open>N\<close> items, \<open>N\<close> positive, and a score vector with one entry per
  item: when at least \<open>N\<close> items other than the anchor pass the rating filter and the
  genre filter, the loop of the Streamlit script returns exactly \<open>N\<close> entries, the first
  \<open>N\<close> of the whole ranking that are not the anchor and pass the filters: the filters are
  applied before the cut to \<open>N\<close>, over the full ranked order. \<^verbatim>\<open>recommend\<close> has no
  filter but the exclusion of the anchor, which it applies before its cut too, and
  returns exactly \<open>N\<close> positions when there are \<open>N\<close> items besides the anchor.
\<close>

theorem n_filling:
  assumes "0 < N"
  shows "(length h = length df
            \<and> N \<le> length (filter (keeps df sel min_rating genre_filter) [0..<length df])
          \<longrightarrow> (\<exists>recs. recs_of df sel min_rating genre_filter N h = Inr recs
                  \<and> length recs = N
                  \<and> recs = take N (filter (\<lambda>x. keeps df sel min_rating genre_filter (fst x))
                                    (sim_scores h))))
       \<and> (idx < length hs \<and> N \<le> length hs - 1
          \<longrightarrow> length (top_indices idx hs (int N)) = N
              \<and> top_indices idx hs (int N)
                  = take N (filter (\<lambda>i. i \<noteq> idx) (rev (np_argsort hs))))"
proof (intro conjI impI)
  assume a: "length h = length df
    \<and> N \<le> length (filter (keeps df sel min_rating genre_filter) [0..<length df])"
  let ?kept = "filter (\<lambda>x. keeps df sel min_rating genre_filter (fst x)) (sim_scores h)"
  have "\<forall>x \<in> set (sim_scores h). fst x < length df"
  proof
    fix x assume "x \<in> set (sim_scores h)"
    then have "fst x < length h" by (rule sim_scores_in_range)
    with a show "fst x < length df" by simp
  qed
  from recs_loop_take [OF this, of "[]" N] assms
  have r: "recs_of df sel min_rating genre_filter N h = Inr (take N ?kept)"
    by (simp add: recs_of_def)
  have "length ?kept = length (filter (keeps df sel min_rating genre_filter) [0..<length df])"
    using count_sim_scores [of "keeps df sel min_rating genre_filter" h] a by simp
  with a have "length (take N ?kept) = N" by simp
  with r show "\<exists>recs. recs_of df sel min_rating genre_filter N h = Inr recs \<and> length recs = N
      \<and> recs = take N ?kept" by simp
next
  assume b: "idx < length hs \<and> N \<le> length hs - 1"
  have t: "top_indices idx hs (int N) = take N (filter (\<lambda>i. i \<noteq> idx) (rev (np_argsort hs)))"
    by (simp add: top_indices_def py_slice_to_def)
  from b length_ranked_others [of idx hs] show "length (top_indices idx hs (int N)) = N"
    by (simp add: t)
  from t show "top_indices idx hs (int N) = take N (filter (\<lambda>i. i \<noteq> idx) (rev (np_argsort hs)))" .
qed

theorem n_filling_witness:
  "(0::nat) < 3 \<and> length [1, 1 / 2, 6 / 10, 2 / 10, 1 / 10 :: real] = length toy_df
   \<and> 3 \<le> length (filter (keeps toy_df 0 (39 / 10) [''fiction'', ''poetry'']) [0..<length toy_df])
   \<and> recs_of toy_df 0 (39 / 10) [''fiction'', ''poetry''] 3 [1, 1 / 2, 6 / 10, 2 / 10, 1 / 10]
       = Inr [(2, 6 / 10), (1, 1 / 2), (3, 2 / 10)]
   \<and> length [(2::nat, 6 / 10 :: real), (1, 1 / 2), (3, 2 / 10)] = 3
   \<and> (0::nat) < length [1, 1 / 2, 6 / 10, 2 / 10, 1 / 10 :: real]
   \<and> 3 \<le> length [1, 1 / 2, 6 / 10, 2 / 10, 1 / 10 :: real] - 1
   \<and> length (top_indices 0 [1, 1 / 2, 6 / 10, 2 / 10, 1 / 10] 3) = 3"
proof -
  have p: "(0::nat) < 3" by simp
  note f = n_filling [OF p, of "[1, 1 / 2, 6 / 10, 2 / 10, 1 / 10]" toy_df 0 "39 / 10"
      "[''fiction'', ''poetry'']" 0 "[1, 1 / 2, 6 / 10, 2 / 10, 1 / 10]"]
  from f toy_recs toy_count toy_top show ?thesis
    by (simp add: toy_len)
qed

section \<open>What a run returns\<close>

lemma andthen_Inr: "andthen m f = Inr y \<longleftrightarrow> (\<exists>x. m = Inr x \<and> f x = Inr y)"
  by (cases m) simp_all

lemma app_Recs:
  assumes "app df0 T G R Y mode query N mr gf w lbl = Inr (Recs sel recs)"
  shows "\<exists>nw h. normalize_weights w = Inr nw \<and> sel < length df0
           \<and> hybrid (clean df0) T G R Y nw sel = Inr h
           \<and> recs_of (clean df0) sel mr gf N h = Inr recs"
  using assms
  by (auto simp add: app_def Let_def andthen_Inr df_loc_def clean_def
      split: if_splits prod.splits)

lemma recommend_Frame:
  assumes "recommend query df T G R Y n w = Inr (Frame rows)"
  shows "\<exists>matches hs. title_matches query df = Inr matches \<and> matches \<noteq> []
           \<and> hybrid_score df T G R Y w (hd matches) = Inr hs
           \<and> rows = map (\<lambda>i. (i, row.truncate (df ! i))) (top_indices (hd matches) hs n)"
  using assms
  by (auto simp add: recommend_def Let_def andthen_Inr df_iloc_def split: if_splits)

lemma clean_nth:
  "i < length df0 \<Longrightarrow> avg_rating (clean df0 ! i) = avg_rating (df0 ! i)
     \<and> genre_flag (clean df0 ! i) = genre_flag (df0 ! i)"
  by (simp add: clean_def)

lemma length_clean: "length (clean df0) = length df0"
  by (simp add: clean_def)

lemma recs_of_sound:
  assumes "recs_of df sel mr gf N h = Inr recs" "x \<in> set recs"
  shows "fst x \<noteq> sel \<and> fst x < length df \<and> passes df mr gf (fst x)"
  using recs_loop_sound [OF assms(1) [unfolded recs_of_def] assms(2)] by simp

lemma toy_app:
  "app toy_df toy_title toy_genre toy_ones toy_ones Title ''dune'' 3 (39 / 10)
       [''fiction'', ''poetry''] toy_weights (''Dune'', ''Herbert'')
     = Inr (Recs 0 [(2, 6 / 10), (1, 1 / 2), (3, 2 / 10)])"
  by code_simp

lemma toy_emma: "avg_rating (toy_df ! 2) = 4 \<and> genre_flag (toy_df ! 2) ''fiction'' = 1"
  by (simp add: toy_df_def toy_book_def)

text \<open>
  C5. Every entry that a run of the Streamlit script returns is a row of the frame
  whose rating is at least \<open>min_rating\<close> and, when the genre filter is not empty, that
  has the flag 1 for at least one of the selected genres.
\<close>

theorem filters_hold:
  assumes "app df0 T G R Y mode query N min_rating genre_filter w selected_label
             = Inr (Recs sel recs)"
    and "(i, s) \<in> set recs"
  shows "i < length df0 \<and> min_rating \<le> avg_rating (df0 ! i)
       \<and> (genre_filter \<noteq> [] \<longrightarrow> (\<exists>g \<in> set genre_filter. genre_flag (df0 ! i) g = 1))"
proof -
  from app_Recs [OF assms(1)] obtain nw h where
    r: "recs_of (clean df0) sel min_rating genre_filter N h = Inr recs" by blast
  from recs_of_sound [OF r assms(2)]
  have i: "i < length df0" and p: "passes (clean df0) min_rating genre_filter i"
    by (simp_all add: length_clean)
  from p clean_nth [OF i] show ?thesis
    using i by (auto simp add: passes_def list_ex_iff)
qed

theorem filters_hold_witness:
  "app toy_df toy_title toy_genre toy_ones toy_ones Title ''dune'' 3 (39 / 10)
       [''fiction'', ''poetry''] toy_weights (''Dune'', ''Herbert'')
     = Inr (Recs 0 [(2, 6 / 10), (1, 1 / 2), (3, 2 / 10)])
   \<and> (2, 6 / 10) \<in> set [(2::nat, 6 / 10 :: real), (1, 1 / 2), (3, 2 / 10)]
   \<and> 2 < length toy_df \<and> (39 / 10 :: real) \<le> avg_rating (toy_df ! 2)
   \<and> (\<exists>g \<in> set [''fiction'', ''poetry'']. genre_flag (toy_df ! 2) g = 1)"
proof -
  have m: "(2, 6 / 10) \<in> set [(2::nat, 6 / 10 :: real), (1, 1 / 2), (3, 2 / 10)]" by simp
  from filters_hold [OF toy_app m] toy_app m show ?thesis by simp
qed

lemma toy_recommend:
  "recommend ''dune'' toy_df toy_title toy_genre toy_ones toy_ones 3 toy_weights
     = Inr (Frame [(2, row.truncate (toy_df ! 2)), (1, row.truncate (toy_df ! 1)),
                   (3, row.truncate (toy_df ! 3))])"
  by code_simp

lemma toy_dune_lower: "title_matches ''dune'' toy_df = Inr [0, 1]"
  by code_simp

text \<open>
  C6. Whenever a run produces a ranked result, the anchor is not in it: the selected
  book is in no entry that the Streamlit script returns, and the first matching book
  is in no row that \<^verbatim>\<open>recommend\<close> returns, whatever the number of items asked for, the
  weights and the filters.
\<close>

theorem anchor_excluded:
  "(app df0 T G R Y mode query N min_rating genre_filter w selected_label
       = Inr (Recs sel recs) \<longrightarrow> sel \<notin> fst ` set recs)
   \<and> (recommend query' df T' G' R' Y' n w' = Inr (Frame rows)
        \<and> title_matches query' df = Inr matches \<longrightarrow> hd matches \<notin> fst ` set rows)"
proof (intro conjI impI)
  assume a: "app df0 T G R Y mode query N min_rating genre_filter w selected_label
       = Inr (Recs sel recs)"
  from app_Recs [OF a] obtain nw h where
    r: "recs_of (clean df0) sel min_rating genre_filter N h = Inr recs" by blast
  show "sel \<notin> fst ` set recs"
  proof
    assume "sel \<in> fst ` set recs"
    then obtain x where "x \<in> set recs" "fst x = sel" by auto
    with recs_of_sound [OF r this(1)] show False by simp
  qed
next
  assume b: "recommend query' df T' G' R' Y' n w' = Inr (Frame rows)
        \<and> title_matches query' df = Inr matches"
  from recommend_Frame [of query' df T' G' R' Y' n w' rows] b obtain hs where
    rows: "rows = map (\<lambda>i. (i, row.truncate (df ! i))) (top_indices (hd matches) hs n)"
    by auto
  have "set (top_indices (hd matches) hs n)
          \<subseteq> set (filter (\<lambda>i. i \<noteq> hd matches) (rev (np_argsort hs)))"
    by (auto simp add: top_indices_def py_slice_to_def Let_def dest: in_set_takeD)
  then have "hd matches \<notin> set (top_indices (hd matches) hs n)" by auto
  then show "hd matches \<notin> fst ` set rows" by (auto simp add: rows)
qed

theorem anchor_excluded_witness:
  "app toy_df toy_title toy_genre toy_ones toy_ones Title ''dune'' 3 (39 / 10)
       [''fiction'', ''poetry''] toy_weights (''Dune'', ''Herbert'')
     = Inr (Recs 0 [(2, 6 / 10), (1, 1 / 2), (3, 2 / 10)])
   \<and> 0 \<notin> fst ` set [(2::nat, 6 / 10 :: real), (1, 1 / 2), (3, 2 / 10)]
   \<and> recommend ''dune'' toy_df toy_title toy_genre toy_ones toy_ones 3 toy_weights
       = Inr (Frame [(2, row.truncate (toy_df ! 2)), (1, row.truncate (toy_df ! 1)),
                     (3, row.truncate (toy_df ! 3))])
   \<and> title_matches ''dune'' toy_df = Inr [0, 1]
   \<and> hd [0::nat, 1] \<notin> fst ` set [(2::nat, row.truncate (toy_df ! 2)),
         (1, row.truncate (toy_df ! 1)), (3, row.truncate (toy_df ! 3))]"
  using anchor_excluded [of toy_df toy_title toy_genre toy_ones toy_ones Title "''dune''" 3
      "39 / 10" "[''fiction'', ''poetry'']" toy_weights "(''Dune'', ''Herbert'')" 0
      "[(2, 6 / 10), (1, 1 / 2), (3, 2 / 10)]" "''dune''" toy_df toy_title toy_genre toy_ones
      toy_ones 3 toy_weights
      "[(2, row.truncate (toy_df ! 2)), (1, row.truncate (toy_df ! 1)),
        (3, row.truncate (toy_df ! 3))]" "[0, 1]"]
    toy_app toy_recommend toy_dune_lower
  by simp

section \<open>The order of equal scores\<close>

lemma sorted_wrt_filter_nth:
  "sorted_wrt P (filter Q xs) \<Longrightarrow> i < j \<Longrightarrow> j < length xs \<Longrightarrow> Q (xs ! i) \<Longrightarrow> Q (xs ! j)
     \<Longrightarrow> P (xs ! i) (xs ! j)"
proof (induction xs arbitrary: i j)
  case Nil
  then show ?case by simp
next
  case (Cons x xs)
  from Cons.prems(2) obtain j' where j: "j = Suc j'" by (cases j) auto
  show ?case
  proof (cases i)
    case 0
    with Cons.prems j have "xs ! j' \<in> set (filter Q xs)" by auto
    with Cons.prems 0 j show ?thesis by auto
  next
    case (Suc i')
    from Cons.prems(1) have "sorted_wrt P (filter Q xs)" by (auto split: if_splits)
    from Cons.IH [OF this, of i' j'] Cons.prems Suc j show ?thesis by simp
  qed
qed

lemma py_sorted_reverse_desc:
  "sorted_wrt (\<lambda>a b. f a \<ge> f b) (py_sorted_reverse f xs)"
proof -
  have "sorted (map f (sort_key f (rev xs)))" by (rule sorted_sort_key)
  then have "sorted_wrt (\<lambda>a b. f a \<le> f b) (sort_key f (rev xs))"
    by (simp add: sorted_map)
  then show ?thesis
    by (simp add: py_sorted_reverse_def sorted_wrt_rev)
qed

lemma py_sorted_reverse_stable:
  "filter (\<lambda>y. f y = k) (py_sorted_reverse f xs) = filter (\<lambda>y. f y = k) xs"
proof -
  have "filter (\<lambda>y. f y = k) (py_sorted_reverse f xs)
          = rev (filter (\<lambda>y. f y = k) (sort_key f (rev xs)))"
    by (simp add: py_sorted_reverse_def rev_filter)
  also have "\<dots> = rev (filter (\<lambda>y. f y = k) (rev xs))" by (simp add: sort_key_stable)
  also have "\<dots> = filter (\<lambda>y. f y = k) xs" by (simp add: rev_filter)
  finally show ?thesis .
qed

lemma zip_upt_sorted_fst: "sorted_wrt (\<lambda>a b. fst a < fst b) (zip [0..<length h] h)"
proof -
  have "sorted_wrt (<) (map fst (zip [0..<length h] h))" by simp
  then show ?thesis by (simp only: sorted_wrt_map)
qed

lemma length_sim_scores: "length (sim_scores h) = length h"
  by (simp add: sim_scores_def py_sorted_reverse_def)

lemma sim_scores_order:
  assumes "i < j" "j < length h"
  shows "snd (sim_scores h ! j) \<le> snd (sim_scores h ! i)
       \<and> (snd (sim_scores h ! i) = snd (sim_scores h ! j)
            \<longrightarrow> fst (sim_scores h ! i) < fst (sim_scores h ! j))"
proof
  from assms have l: "j < length (sim_scores h)" by (simp add: length_sim_scores)
  from py_sorted_reverse_desc [of snd "zip [0..<length h] h"] assms(1) l
  show "snd (sim_scores h ! j) \<le> snd (sim_scores h ! i)"
    by (simp add: sim_scores_def sorted_wrt_iff_nth_less)
  show "snd (sim_scores h ! i) = snd (sim_scores h ! j)
            \<longrightarrow> fst (sim_scores h ! i) < fst (sim_scores h ! j)"
  proof
    assume e: "snd (sim_scores h ! i) = snd (sim_scores h ! j)"
    let ?k = "snd (sim_scores h ! j)"
    have "sorted_wrt (\<lambda>a b. fst a < fst b) (filter (\<lambda>y. snd y = ?k) (zip [0..<length h] h))"
      by (rule sorted_wrt_filter [OF zip_upt_sorted_fst])
    then have "sorted_wrt (\<lambda>a b. fst a < fst b) (filter (\<lambda>y. snd y = ?k) (sim_scores h))"
      by (simp add: sim_scores_def py_sorted_reverse_stable)
    from sorted_wrt_filter_nth [OF this assms(1) l] e
    show "fst (sim_scores h ! i) < fst (sim_scores h ! j)" by simp
  qed
qed

lemma upt_sorted_ids: "sorted_wrt (<) [0..<n]"
  by simp

lemma np_argsort_rev_order:
  assumes "i < j" "j < length hs"
  shows "hs ! (rev (np_argsort hs) ! j) \<le> hs ! (rev (np_argsort hs) ! i)
       \<and> (hs ! (rev (np_argsort hs) ! i) = hs ! (rev (np_argsort hs) ! j)
            \<longrightarrow> rev (np_argsort hs) ! j < rev (np_argsort hs) ! i)"
proof
  let ?r = "rev (np_argsort hs)"
  have l: "j < length ?r" using assms by (simp add: np_argsort_def)
  have "sorted (map (\<lambda>i. hs ! i) (np_argsort hs))"
    unfolding np_argsort_def by (rule sorted_sort_key)
  then have "sorted_wrt (\<lambda>a b. hs ! a \<le> hs ! b) (np_argsort hs)" by (simp add: sorted_map)
  then have d: "sorted_wrt (\<lambda>a b. hs ! b \<le> hs ! a) ?r" by (simp add: sorted_wrt_rev)
  from d assms(1) l show "hs ! (?r ! j) \<le> hs ! (?r ! i)"
    by (simp add: sorted_wrt_iff_nth_less)
  show "hs ! (?r ! i) = hs ! (?r ! j) \<longrightarrow> ?r ! j < ?r ! i"
  proof
    assume e: "hs ! (?r ! i) = hs ! (?r ! j)"
    let ?k = "hs ! (?r ! j)"
    have "filter (\<lambda>a. hs ! a = ?k) (np_argsort hs) = filter (\<lambda>a. hs ! a = ?k) [0..<length hs]"
      unfolding np_argsort_def by (rule sort_key_stable)
    moreover have "sorted_wrt (<) (filter (\<lambda>a. hs ! a = ?k) [0..<length hs])"
      by (rule sorted_wrt_filter [OF upt_sorted_ids])
    ultimately have "sorted_wrt (<) (filter (\<lambda>a. hs ! a = ?k) (np_argsort hs))" by simp
    then have "sorted_wrt (\<lambda>a b. b < a) (rev (filter (\<lambda>a. hs ! a = ?k) (np_argsort hs)))"
      by (simp add: sorted_wrt_rev)
    then have "sorted_wrt (\<lambda>a b. b < a) (filter (\<lambda>a. hs ! a = ?k) ?r)"
      by (simp add: rev_filter)
    from sorted_wrt_filter_nth [OF this assms(1) l] e show "?r ! j < ?r ! i" by simp
  qed
qed

lemma toy_title_only_scores:
  "hybrid_score toy_df toy_title toy_genre toy_ones toy_ones title_only 0
     = Inr [1, 8 / 10, 3 / 10, 3 / 10, 1 / 10]"
  by code_simp

text \<open>
  C2. The ranking is to sort by descending score with equal scores in ascending
  original position. The Streamlit script does so for every score vector
  (\<open>sim_scores_order\<close>). \<^verbatim>\<open>recommend\<close> does not: it reverses an ascending \<^verbatim>\<open>argsort\<close>, which
  brings equal scores into descending position (\<open>np_argsort_rev_order\<close>). On the small
  data set with the title weight alone, the books 2 and 3 both score 0.3:
  \<^verbatim>\<open>recommend\<close> returns book 3 before book 2, the script book 2 before book 3.
\<close>

theorem ties_by_descending_index:
  "hybrid_score toy_df toy_title toy_genre toy_ones toy_ones title_only 0
     = Inr [1, 8 / 10, 3 / 10, 3 / 10, 1 / 10]
   \<and> recommend ''dune'' toy_df toy_title toy_genre toy_ones toy_ones 10 title_only
     = Inr (Frame [(1, row.truncate (toy_df ! 1)), (3, row.truncate (toy_df ! 3)),
                   (2, row.truncate (toy_df ! 2)), (4, row.truncate (toy_df ! 4))])
   \<and> app toy_df toy_title toy_genre toy_ones toy_ones Title ''dune'' 10 0 [] title_only
         (''Dune'', ''Herbert'')
     = Inr (Recs 0 [(1, 8 / 10), (2, 3 / 10), (3, 3 / 10), (4, 1 / 10)])"
  by code_simp

section \<open>The matcher and the language of a pattern\<close>

lemma starts_with_iff: "starts_with p s \<longleftrightarrow> (\<exists>v. s = p @ v)"
  by (induction p s rule: starts_with.induct) auto

lemma substring_iff: "substring p s \<longleftrightarrow> (\<exists>u v. s = u @ p @ v)"
proof (induction s)
  case Nil
  then show ?case by auto
next
  case (Cons c s)
  show ?case
  proof
    assume "substring p (c # s)"
    then consider "starts_with p (c # s)" | "substring p s" by auto
    then show "\<exists>u v. c # s = u @ p @ v"
    proof cases
      case 1
      then obtain v where "c # s = p @ v" by (auto simp add: starts_with_iff)
      then have "c # s = [] @ p @ v" by simp
      then show ?thesis by blast
    next
      case 2
      with Cons.IH obtain u v where "s = u @ p @ v" by blast
      then have "c # s = (c # u) @ p @ v" by simp
      then show ?thesis by blast
    qed
  next
    assume "\<exists>u v. c # s = u @ p @ v"
    then obtain u v where e: "c # s = u @ p @ v" by blast
    show "substring p (c # s)"
    proof (cases u)
      case Nil
      with e have "starts_with p (c # s)" by (auto simp add: starts_with_iff)
      then show ?thesis by simp
    next
      case (Cons a u')
      with e have "s = u' @ p @ v" by simp
      with Cons.IH have "substring p s" by blast
      then show ?thesis by simp
    qed
  qed
qed

lemma nullable_iff: "nullable r \<longleftrightarrow> [] \<in> lang r"
  by (induction r) (auto simp add: conc_def intro: star.intros)

lemma star_cons:
  "a # w \<in> star A \<longleftrightarrow> (\<exists>u v. w = u @ v \<and> a # u \<in> A \<and> v \<in> star A)"
proof
  assume "a # w \<in> star A"
  then show "\<exists>u v. w = u @ v \<and> a # u \<in> A \<and> v \<in> star A"
  proof (induction "a # w" arbitrary: w rule: star.induct)
    case (star_step u v)
    show ?case
    proof (cases u)
      case Nil
      with star_step show ?thesis by simp
    next
      case (Cons b u')
      with star_step.hyps star_step.hyps(4) show ?thesis by auto
    qed
  qed
next
  assume "\<exists>u v. w = u @ v \<and> a # u \<in> A \<and> v \<in> star A"
  then obtain u v where "w = u @ v" "a # u \<in> A" "v \<in> star A" by blast
  then have "(a # u) @ v \<in> star A" by (intro star.star_step)
  with \<open>w = u @ v\<close> show "a # w \<in> star A" by simp
qed

lemma conc_cons:
  "a # w \<in> conc A B \<longleftrightarrow>
     (\<exists>u v. w = u @ v \<and> a # u \<in> A \<and> v \<in> B) \<or> ([] \<in> A \<and> a # w \<in> B)"
  by (auto simp add: conc_def Cons_eq_append_conv) 

lemma lang_deriv: "w \<in> lang (deriv a r) \<longleftrightarrow> a # w \<in> lang r"
proof (induction r arbitrary: w)
  case (Seq r s)
  then show ?case
    by (auto simp add: conc_cons nullable_iff) (auto simp add: conc_def)
next
  case (Star r)
  then show ?case
    by (auto simp add: star_cons conc_def)
qed auto

lemma re_match_iff: "re_match r s \<longleftrightarrow> (\<exists>u v. s = u @ v \<and> u \<in> lang r)"
proof (induction s arbitrary: r)
  case Nil
  then show ?case by (simp add: nullable_iff)
next
  case (Cons c s)
  have "(\<exists>u v. c # s = u @ v \<and> u \<in> lang r)
          \<longleftrightarrow> [] \<in> lang r \<or> (\<exists>u v. s = u @ v \<and> c # u \<in> lang r)"
    by (auto simp add: Cons_eq_append_conv)
  with Cons show ?case by (simp add: nullable_iff lang_deriv)
qed

lemma re_search_iff: "re_search r s \<longleftrightarrow> (\<exists>t u v. s = t @ u @ v \<and> u \<in> lang r)"
proof (induction s)
  case Nil
  then show ?case by (simp add: nullable_iff)
next
  case (Cons c s)
  have "(\<exists>t u v. c # s = t @ u @ v \<and> u \<in> lang r)
          \<longleftrightarrow> (\<exists>u v. c # s = u @ v \<and> u \<in> lang r) \<or> (\<exists>t u v. s = t @ u @ v \<and> u \<in> lang r)"
    (is "?L \<longleftrightarrow> ?A \<or> ?B")
  proof
    assume ?L
    then obtain t u v where e: "c # s = t @ u @ v" "u \<in> lang r" by blast
    show "?A \<or> ?B"
    proof (cases t)
      case Nil
      with e show ?thesis by auto
    next
      case (Cons a t')
      with e have "s = t' @ u @ v" by simp
      with e(2) show ?thesis by blast
    qed
  next
    assume "?A \<or> ?B"
    then show ?L
    proof
      assume ?A
      then obtain u v where "c # s = [] @ u @ v" "u \<in> lang r" by auto
      then show ?L by blast
    next
      assume ?B
      then obtain t u v where "s = t @ u @ v" "u \<in> lang r" by blast
      then have "c # s = (c # t) @ u @ v" by simp
      with \<open>u \<in> lang r\<close> show ?L by blast
    qed
  qed
  with Cons show ?case by (simp only: re_search.simps re_match_iff)
qed

section \<open>The resolver\<close>

lemma seq_of_snoc: "seq_of (items @ [r]) = Seq r (seq_of items)"
  by (simp add: seq_of_def)

lemma lang_literal: "lang (seq_of (rev (map Chr p))) = {p}"
proof (induction p)
  case Nil
  then show ?case by (simp add: seq_of_def)
next
  case (Cons c p)
  then show ?case by (simp add: seq_of_snoc conc_def)
qed

lemma re_parse_plain:
  "plain p \<Longrightarrow> re_parse (alts, items, q) [] False p
     = Inr (close_frame (alts, rev (map Chr p) @ items, False))"
proof (induction p arbitrary: items q)
  case Nil
  then show ?case by (simp add: close_frame_def)
next
  case (Cons c p)
  from Cons.prems have c: "\<not> special c" and p: "plain p" by (simp_all add: plain_def)
  from c have "re_parse (alts, items, q) [] False (c # p)
      = re_parse (alts, Chr c # items, False) [] False p"
    by (simp add: special_def)
  with Cons.IH [OF p] show ?case by simp
qed

lemma re_compile_plain: "plain p \<Longrightarrow> re_compile p = Inr (seq_of (rev (map Chr p)))"
  by (simp add: re_compile_def re_parse_plain close_frame_def)

lemma re_search_literal: "re_search (seq_of (rev (map Chr p))) s \<longleftrightarrow> substring p s"
  by (simp add: re_search_iff lang_literal substring_iff)

lemma str_contains_plain: "plain q \<Longrightarrow> str_contains col q = Inr (map (substring q) col)"
  by (simp add: str_contains_def re_compile_plain re_search_literal)

lemma masked_map: "masked (map f xs) = filter (\<lambda>i. f (xs ! i)) [0..<length xs]"
  by (auto simp add: masked_def intro: filter_cong)

lemma title_matches_compiled:
  "re_compile (py_strip (py_lower query)) = Inr r \<Longrightarrow>
     title_matches query df
       = Inr (filter (\<lambda>i. re_search r (py_lower (title (df ! i)))) [0..<length df])"
  using masked_map [of "\<lambda>b. re_search r (py_lower (title b))" df]
  by (simp add: title_matches_def str_contains_def Let_def o_def)

lemma title_matches_plain:
  assumes "plain (py_strip (py_lower query))"
  shows "title_matches query df
    = Inr (filter (\<lambda>i. substring (py_strip (py_lower query)) (py_lower (title (df ! i))))
             [0..<length df])"
  using title_matches_compiled [OF re_compile_plain [OF assms]]
  by (simp add: re_search_literal)

text \<open>
  C3, as amended. For every query that, lower-cased and trimmed, has no special
  character of the pattern syntax and is contained as a substring in no lower-cased
  title, \<^verbatim>\<open>recommend\<close> raises nothing: it returns, as an ordinary value, the string
  \<^verbatim>\<open>No books found for '<query>'. Try another keyword.\<close> with the original query in it.
\<close>

theorem not_found_returns_message:
  assumes "plain (py_strip (py_lower query))"
    and "no_title_contains (py_strip (py_lower query)) df"
  shows "recommend query df T G R Y n w = Inr (Message (not_found_message query))"
proof -
  from assms(2) have "\<forall>i < length df.
      \<not> substring (py_strip (py_lower query)) (py_lower (title (df ! i)))"
    by (simp add: no_title_contains_def list_all_length)
  then have "filter (\<lambda>i. substring (py_strip (py_lower query)) (py_lower (title (df ! i))))
             [0..<length df] = []"
    by (simp add: filter_empty_conv)
  with title_matches_plain [OF assms(1), of df] show ?thesis
    by (simp add: recommend_def)
qed

lemma atlas_normal: "py_strip (py_lower '' Atlas '') = ''atlas''"
  by code_simp

lemma atlas_plain: "plain ''atlas''"
  by code_simp

lemma atlas_absent: "no_title_contains ''atlas'' toy_df"
  by code_simp

theorem not_found_returns_message_witness:
  "plain (py_strip (py_lower '' Atlas '')) \<and> no_title_contains (py_strip (py_lower '' Atlas '')) toy_df
   \<and> recommend '' Atlas '' toy_df toy_title toy_genre toy_ones toy_ones 10 default_weights
       = Inr (Message (not_found_message '' Atlas ''))"
proof -
  have h: "plain (py_strip (py_lower '' Atlas ''))"
    "no_title_contains (py_strip (py_lower '' Atlas '')) toy_df"
    by (simp_all add: atlas_normal atlas_plain atlas_absent)
  from not_found_returns_message [OF h] h show ?thesis by simp
qed

text \<open>
  C3 as stated fails: for the query \<^verbatim>\<open>atlas\<close>, which no title of the small data set
  contains, \<^verbatim>\<open>recommend\<close> returns the message string; it signals no error.
\<close>

theorem not_found_is_no_error:
  "no_title_contains (py_strip (py_lower ''atlas'')) toy_df
   \<and> recommend ''atlas'' toy_df toy_title toy_genre toy_ones toy_ones 10 default_weights
       = Inr (Message (not_found_message ''atlas''))
   \<and> \<not> isl (recommend ''atlas'' toy_df toy_title toy_genre toy_ones toy_ones 10
               default_weights)"
  by code_simp

lemma bad_pattern: "re_compile (py_strip (py_lower ''('')) = Inl ReError"
  by code_simp

lemma dot_matches: "title_matches ''D.ne'' toy_df = Inr [0, 1]"
  by code_simp

lemma dot_absent: "no_title_contains (py_strip (py_lower ''D.ne'')) toy_df"
  by code_simp

text \<open>
  C10. The title matching treats the lower-cased, trimmed query as a regular
  expression: the rows matched are those in whose lower-cased title a search with the
  compiled pattern succeeds, and a query that is no valid pattern makes \<^verbatim>\<open>recommend\<close>, and
  the Streamlit script once the weights are normalised, raise the pattern error in place
  of a match or of the not-found outcome. A title can match without containing the
  query: \<^verbatim>\<open>D.ne\<close> matches the first two titles of the small data set, none of which
  contains the text \<^verbatim>\<open>d.ne\<close>.
\<close>

theorem title_match_is_regex:
  "(re_compile (py_strip (py_lower query)) = Inr r \<longrightarrow>
      title_matches query df
        = Inr (filter (\<lambda>i. re_search r (py_lower (title (df ! i)))) [0..<length df]))
   \<and> (re_compile (py_strip (py_lower query)) = Inl ReError \<longrightarrow>
        recommend query df T G R Y n w = Inl ReError
        \<and> (w_sum w' \<noteq> 0 \<and> query \<noteq> [] \<longrightarrow>
             app df' T' G' R' Y' mode query N min_rating genre_filter w' selected_label
               = Inl ReError))
   \<and> title_matches ''D.ne'' toy_df = Inr [0, 1]
   \<and> no_title_contains (py_strip (py_lower ''D.ne'')) toy_df"
proof (intro conjI impI)
  assume "re_compile (py_strip (py_lower query)) = Inr r"
  then show "title_matches query df
        = Inr (filter (\<lambda>i. re_search r (py_lower (title (df ! i)))) [0..<length df])"
    by (rule title_matches_compiled)
next
  assume e: "re_compile (py_strip (py_lower query)) = Inl ReError"
  then show "recommend query df T G R Y n w = Inl ReError"
    by (simp add: recommend_def title_matches_def str_contains_def Let_def)
  assume "w_sum w' \<noteq> 0 \<and> query \<noteq> []"
  with e show "app df' T' G' R' Y' mode query N min_rating genre_filter w' selected_label
               = Inl ReError"
    by (simp add: app_def normalize_weights_ok filtered_df_def str_contains_def Let_def)
qed (rule dot_matches, rule dot_absent)

lemma toy_wsum_default: "w_sum default_weights \<noteq> 0"
  by (simp add: w_sum_def default_weights_def)

theorem title_match_is_regex_witness:
  "re_compile (py_strip (py_lower ''('')) = Inl ReError
   \<and> recommend ''('' toy_df toy_title toy_genre toy_ones toy_ones 10 default_weights
       = Inl ReError
   \<and> w_sum default_weights \<noteq> 0 \<and> ''('' \<noteq> []
   \<and> app toy_df toy_title toy_genre toy_ones toy_ones Title ''('' 10 0 [] default_weights
         (''Dune'', ''Herbert'') = Inl ReError
   \<and> re_compile (py_strip (py_lower ''D.ne'')) = Inr dne_pattern
   \<and> title_matches ''D.ne'' toy_df
       = Inr (filter (\<lambda>i. re_search dne_pattern (py_lower (title (toy_df ! i))))
                [0..<length toy_df])"
proof -
  have c: "re_compile (py_strip (py_lower ''D.ne'')) = Inr dne_pattern"
    unfolding dne_pattern_def by code_simp
  have n: "''('' \<noteq> []" by simp
  note t1 = title_match_is_regex [of "''(''" _ toy_df toy_title toy_genre toy_ones toy_ones 10
      default_weights default_weights toy_df toy_title toy_genre toy_ones toy_ones Title 10 0
      "[]" "(''Dune'', ''Herbert'')"]
  note t2 = title_match_is_regex [of "''D.ne''" dne_pattern toy_df]
  from t1 t2 bad_pattern toy_wsum_default c n show ?thesis by simp
qed

section \<open>Determinism and the inputs\<close>

lemma hybrid_score_heap_refines:
  assumes "valid_rows h cs" "valid_rows h gs" "valid_rows h rs" "valid_rows h ys"
    and "hybrid_score_heap df cs gs rs ys w idx h = (r, h')"
  shows "(\<exists>t. h' = h @ t)
       \<and> (case r of
            Inl e \<Rightarrow> hybrid_score df (matrix_at h cs) (matrix_at h gs) (matrix_at h rs)
                       (matrix_at h ys) w idx = Inl e
          | Inr a \<Rightarrow> hybrid_score df (matrix_at h cs) (matrix_at h gs) (matrix_at h rs)
                       (matrix_at h ys) w idx = Inr (h' ! a))"
  using assms
  by (auto simp add: hybrid_score_heap_def hybrid_score_def weighted_rows_def view_row_def
      np_row_def matrix_at_def mul_scalar_def add_arrays_def iadd_series_def alloc_def
      st_bind_def st_of_def st_return_def st_raise_def Let_def valid_rows_def list_all_length
      nth_append list_update_append andthen_def split: sum.splits if_splits prod.splits)


lemma recommend_heap_refines:
  assumes "valid_rows h cs" "valid_rows h gs" "valid_rows h rs" "valid_rows h ys"
    and "recommend_heap query df cs gs rs ys n w h = (r, h')"
  shows "(\<exists>t. h' = h @ t)
       \<and> r = recommend query df (matrix_at h cs) (matrix_at h gs) (matrix_at h rs)
                (matrix_at h ys) n w"
proof (cases "title_matches query df")
  case (Inl e)
  with assms(5) show ?thesis
    by (simp add: recommend_heap_def recommend_def st_bind_def st_of_def)
next
  case (Inr matches)
  show ?thesis
  proof (cases "matches = []")
    case True
    with Inr assms(5) show ?thesis
      by (simp add: recommend_heap_def recommend_def st_bind_def st_of_def st_return_def)
  next
    case False
    obtain ra ha where hh: "hybrid_score_heap df cs gs rs ys w (hd matches) h = (ra, ha)"
      by (cases "hybrid_score_heap df cs gs rs ys w (hd matches) h")
    note ref = hybrid_score_heap_refines [OF assms(1-4) hh]
    show ?thesis
    proof (cases ra)
      case (Inl e)
      with ref Inr False hh assms(5) show ?thesis
        by (simp add: recommend_heap_def recommend_def st_bind_def st_of_def Let_def)
    next
      case (Inr a)
      with ref \<open>title_matches query df = Inr matches\<close> False hh assms(5) show ?thesis
        by (auto simp add: recommend_heap_def recommend_def st_bind_def st_of_def Let_def
            read_array_def st_return_def andthen_def split: sum.splits)
    qed
  qed
qed

lemma matrix_at_append: "valid_rows h m \<Longrightarrow> matrix_at (h @ t) m = matrix_at h m"
  by (simp add: matrix_at_def valid_rows_def list_all_iff nth_append)

lemma valid_rows_append: "valid_rows h m \<Longrightarrow> valid_rows (h @ t) m"
  by (auto simp add: valid_rows_def list_all_iff)

lemma toy_heap_valid:
  "valid_rows toy_heap title_at" "valid_rows toy_heap genre_at" "valid_rows toy_heap ones_at"
  by code_simp+

lemma toy_heap_matrices:
  "matrix_at toy_heap title_at = toy_title" "matrix_at toy_heap genre_at = toy_genre"
  "matrix_at toy_heap ones_at = toy_ones"
  by code_simp+

lemma toy_heap_run:
  "fst (recommend_heap ''dune'' toy_df title_at genre_at ones_at ones_at 3 toy_weights toy_heap)
     = Inr (Frame [(2, row.truncate (toy_df ! 2)), (1, row.truncate (toy_df ! 1)),
                   (3, row.truncate (toy_df ! 3))])"
  by code_simp

text \<open>
  C9. \<^verbatim>\<open>recommend\<close> is deterministic and changes none of its inputs. Run on a store that
  holds the four matrices, it returns what \<open>recommend\<close>, a function of its arguments,
  returns on the matrices read from that store; every array that was in the store is
  left as it was, the matrices among them (the one in-place addition writes to an array
  that the call itself allocated, not to a row of a matrix); and a second call with the
  same arguments, on the store that the first call left, returns the same result. The
  frame, the weights and the number of items are values that the code only reads.
\<close>

theorem recommend_leaves_inputs:
  assumes "valid_rows h cs" "valid_rows h gs" "valid_rows h rs" "valid_rows h ys"
    and "recommend_heap query df cs gs rs ys n w h = (r1, h1)"
    and "recommend_heap query df cs gs rs ys n w h1 = (r2, h2)"
  shows "r1 = recommend query df (matrix_at h cs) (matrix_at h gs) (matrix_at h rs)
                (matrix_at h ys) n w
       \<and> r2 = r1
       \<and> take (length h) h1 = h \<and> take (length h) h2 = h
       \<and> matrix_at h1 cs = matrix_at h cs \<and> matrix_at h1 gs = matrix_at h gs
       \<and> matrix_at h1 rs = matrix_at h rs \<and> matrix_at h1 ys = matrix_at h ys"
proof -
  from recommend_heap_refines [OF assms(1-5)] obtain t1 where
    h1: "h1 = h @ t1" and
    r1: "r1 = recommend query df (matrix_at h cs) (matrix_at h gs) (matrix_at h rs)
                (matrix_at h ys) n w" by blast
  have v1: "valid_rows h1 cs" "valid_rows h1 gs" "valid_rows h1 rs" "valid_rows h1 ys"
    using assms(1-4) by (simp_all add: h1 valid_rows_append)
  have m1: "matrix_at h1 cs = matrix_at h cs" "matrix_at h1 gs = matrix_at h gs"
    "matrix_at h1 rs = matrix_at h rs" "matrix_at h1 ys = matrix_at h ys"
    using assms(1-4) by (simp_all add: h1 matrix_at_append)
  from recommend_heap_refines [OF v1 assms(6)] obtain t2 where
    h2: "h2 = h1 @ t2" and
    r2: "r2 = recommend query df (matrix_at h1 cs) (matrix_at h1 gs) (matrix_at h1 rs)
                (matrix_at h1 ys) n w" by blast
  from r1 r2 m1 have "r2 = r1" by simp
  with r1 m1 h1 h2 show ?thesis by simp
qed

theorem recommend_leaves_inputs_witness:
  "valid_rows toy_heap title_at \<and> valid_rows toy_heap genre_at \<and> valid_rows toy_heap ones_at
   \<and> fst (recommend_heap ''dune'' toy_df title_at genre_at ones_at ones_at 3 toy_weights
            toy_heap)
       = Inr (Frame [(2, row.truncate (toy_df ! 2)), (1, row.truncate (toy_df ! 1)),
                     (3, row.truncate (toy_df ! 3))])
   \<and> fst (recommend_heap ''dune'' toy_df title_at genre_at ones_at ones_at 3 toy_weights
          (snd (recommend_heap ''dune'' toy_df title_at genre_at ones_at ones_at 3
                  toy_weights toy_heap)))
       = Inr (Frame [(2, row.truncate (toy_df ! 2)), (1, row.truncate (toy_df ! 1)),
                     (3, row.truncate (toy_df ! 3))])
   \<and> take (length toy_heap)
        (snd (recommend_heap ''dune'' toy_df title_at genre_at ones_at ones_at 3
                toy_weights toy_heap)) = toy_heap
   \<and> matrix_at (snd (recommend_heap ''dune'' toy_df title_at genre_at ones_at ones_at 3
                       toy_weights toy_heap)) title_at = toy_title"
proof -
  let ?run = "recommend_heap ''dune'' toy_df title_at genre_at ones_at ones_at 3 toy_weights"
  have c1: "?run toy_heap = (fst (?run toy_heap), snd (?run toy_heap))" by simp
  have c2: "?run (snd (?run toy_heap))
      = (fst (?run (snd (?run toy_heap))), snd (?run (snd (?run toy_heap))))" by simp
  note t = recommend_leaves_inputs [OF toy_heap_valid(1) toy_heap_valid(2) toy_heap_valid(3)
      toy_heap_valid(3) c1 c2]
  from t toy_heap_valid toy_heap_run show ?thesis
    by (simp add: toy_heap_matrices)
qed

end
